theory Spec2Isabelle
  imports Main "HOL-Library.AList"
begin

section \<open>Python values, dictionaries and exceptions\<close>

text \<open>
  The cache of \<^verbatim>\<open>mopidy_qobuz/cache.py\<close> stores dictionaries \<^verbatim>\<open>Dict[str, Any]\<close>.
  The values that occur are \<^verbatim>\<open>None\<close>, integers (\<^verbatim>\<open>size_bytes\<close>), strings
  (\<^verbatim>\<open>track_id\<close>, \<^verbatim>\<open>local_path\<close>, \<^verbatim>\<open>stored_at\<close>) and, since the type is \<^verbatim>\<open>Any\<close>,
  objects that \<^verbatim>\<open>json\<close> cannot serialise; \<^verbatim>\<open>bytes\<close> stands for those.
  A Python dictionary keeps insertion order, so it is an association list:
  \<^verbatim>\<open>d[k] = v\<close> is \<open>AList.update k v d\<close> (in place if the key exists, appended otherwise).
\<close>

datatype pyval = PNone | PInt int | PStr string | PBytes string

type_synonym pydict = "(string \<times> pyval) list"

datatype exn =
    NameError string
  | FileNotFoundError string
  | PermissionError string
  | TypeError string

text \<open>\<^verbatim>\<open>d.get(k, dflt)\<close> and \<^verbatim>\<open>k in d\<close>.\<close>

definition dict_get :: "pydict \<Rightarrow> string \<Rightarrow> pyval \<Rightarrow> pyval" where
  "dict_get d k dflt = (case map_of d k of None \<Rightarrow> dflt | Some v \<Rightarrow> v)"

definition dict_contains :: "string \<Rightarrow> pydict \<Rightarrow> bool" where
  "dict_contains k d = (map_of d k \<noteq> None)"

text \<open>\<^verbatim>\<open>{**a, **b}\<close>: the items of \<open>b\<close> are assigned into \<open>a\<close> one after the other.\<close>

definition dict_merge :: "pydict \<Rightarrow> pydict \<Rightarrow> pydict" where
  "dict_merge a b = foldl (\<lambda>d kv. AList.update (fst kv) (snd kv) d) a b"

section \<open>Library functions\<close>

text \<open>
  The standard-library functions the module calls are parameters of the model:
  \<^item> \<open>md5_hexdigest k\<close> is \<^verbatim>\<open>hashlib.md5(k.encode()).hexdigest()\<close>;
  \<^item> \<open>str_len v\<close> is \<^verbatim>\<open>len(str(v).encode())\<close>;
  \<^item> \<open>json_dump v\<close> is \<^verbatim>\<open>json.dump(v, f)\<close>: the text it writes to \<open>f\<close> and the exception it
    raises, if any. \<^verbatim>\<open>json.dump\<close> writes chunk by chunk, so on an exception the text is
    the part written before it;
  \<^item> \<open>json_load b\<close> is \<^verbatim>\<open>json.load\<close> on a file with content \<open>b\<close> opened in text mode:
    \<open>Some d\<close> when it returns the dictionary \<open>d\<close>, \<open>None\<close> when decoding or parsing raises
    or the document is not a dictionary (then \<^verbatim>\<open>.get\<close> raises in the callers, with the same
    effect);
  \<^item> a naive \<^verbatim>\<open>datetime\<close> is the number of microseconds since \<^verbatim>\<open>datetime.min\<close>;
    \<open>isoformat t\<close> is \<^verbatim>\<open>t.isoformat()\<close>, and \<open>fromisoformat s\<close> is \<open>Some t\<close> when
    \<^verbatim>\<open>datetime.fromisoformat(s)\<close> is the naive datetime \<open>t\<close>, \<open>None\<close> when it raises or
    yields an aware datetime (then subtracting it from \<^verbatim>\<open>datetime.now()\<close> raises).
\<close>

record pylib =
  md5_hexdigest :: "string \<Rightarrow> string"
  str_len :: "pydict \<Rightarrow> nat"
  json_dump :: "pydict \<Rightarrow> string \<times> exn option"
  json_load :: "string \<Rightarrow> pydict option"
  isoformat :: "int \<Rightarrow> string"
  fromisoformat :: "string \<Rightarrow> int option"

definition datetime_min :: int where
  "datetime_min = 0"

text \<open>
  \<^verbatim>\<open>timedelta(days=d)\<close> in microseconds; it raises \<^verbatim>\<open>OverflowError\<close> when the magnitude
  of \<open>d\<close> exceeds 999999999.
\<close>

definition timedelta_days :: "int \<Rightarrow> int option" where
  "timedelta_days d =
     (if \<bar>d\<bar> \<le> 999999999 then Some (d * 86400000000) else None)"

text \<open>\<^verbatim>\<open>datetime.fromisoformat(x)\<close> on a dictionary value: a non-string raises \<^verbatim>\<open>TypeError\<close>.\<close>

definition fromisoformat_val :: "pylib \<Rightarrow> pyval \<Rightarrow> int option" where
  "fromisoformat_val L x = (case x of PStr s \<Rightarrow> fromisoformat L s | _ \<Rightarrow> None)"

text \<open>\<^verbatim>\<open>os.path.join(a, b)\<close> on POSIX.\<close>

definition path_join :: "string \<Rightarrow> string \<Rightarrow> string" where
  "path_join a b =
     (if b \<noteq> [] \<and> hd b = CHR ''/'' then b
      else if a = [] \<or> last a = CHR ''/'' then a @ b
      else a @ ''/'' @ b)"

section \<open>The cache directory\<close>

text \<open>
  The state the module works on:
  \<^item> \<open>files\<close>: the regular files of the cache directory, as \<^verbatim>\<open>os.scandir\<close> lists them, each
    with its path (\<^verbatim>\<open>entry.path\<close>) and its bytes; \<^verbatim>\<open>st_size\<close> is the number of bytes;
  \<^item> \<open>unwritable\<close>: the paths on which \<^verbatim>\<open>open(p, "w")\<close> and \<^verbatim>\<open>open(p, "wb")\<close> raise;
  \<^item> \<open>undeletable\<close>: the paths on which \<^verbatim>\<open>os.remove\<close> raises;
  \<^item> \<open>unlinked\<close>: the paths \<^verbatim>\<open>os.remove\<close> has removed so far, oldest first (a history, read by
    no operation);
  \<^item> \<open>net_calls\<close>: how many times \<^verbatim>\<open>requests.get\<close> has been called so far.
\<close>

record world =
  files :: "(string \<times> string) list"
  unwritable :: "string list"
  undeletable :: "string list"
  unlinked :: "string list"
  net_calls :: nat

definition read_file :: "world \<Rightarrow> string \<Rightarrow> string option" where
  "read_file w p = map_of (files w) p"

definition os_remove :: "string \<Rightarrow> world \<Rightarrow> exn + world" where
  "os_remove p w =
     (if read_file w p = None then Inl (FileNotFoundError p)
      else if p \<in> set (undeletable w) then Inl (PermissionError p)
      else Inr (w\<lparr>files := AList.delete p (files w), unlinked := unlinked w @ [p]\<rparr>))"

text \<open>
  \<^verbatim>\<open>with open(p, "w") as f: ...\<close> creates or truncates the file at once; what the body
  writes is in the file when the block is left, also when it is left by an exception.
\<close>

definition open_w :: "string \<Rightarrow> world \<Rightarrow> exn + world" where
  "open_w p w =
     (if p \<in> set (unwritable w) then Inl (PermissionError p)
      else Inr (w\<lparr>files := AList.update p [] (files w)\<rparr>))"

definition write_all :: "string \<Rightarrow> string \<Rightarrow> world \<Rightarrow> world" where
  "write_all p b w = w\<lparr>files := AList.update p b (files w)\<rparr>"

section \<open>FileCacheStorage\<close>

record FileCacheStorage =
  cache_dir :: string
  max_age_days :: int
  max_total_size_bytes :: int

text \<open>\<^verbatim>\<open>FileCacheStorage.__init__\<close> (the directory is created if it is missing).\<close>

definition FileCacheStorage_init :: "string \<Rightarrow> int \<Rightarrow> int \<Rightarrow> FileCacheStorage" where
  "FileCacheStorage_init dir age budget =
     \<lparr>cache_dir = dir, max_age_days = age, max_total_size_bytes = budget\<rparr>"

definition get_cache_path :: "pylib \<Rightarrow> FileCacheStorage \<Rightarrow> string \<Rightarrow> string" where
  "get_cache_path L self key = path_join (cache_dir self) (md5_hexdigest L key @ ''.cache'')"

definition get_total_cache_size :: "world \<Rightarrow> nat" where
  "get_total_cache_size w = sum_list (map (\<lambda>entry. length (snd entry)) (files w))"

text \<open>One element of \<^verbatim>\<open>cache_files\<close> in \<^verbatim>\<open>_cleanup_oldest_files\<close>.\<close>

record cache_file =
  f_path :: string
  f_size :: nat
  f_stored_at :: int
  f_is_expired :: bool

definition corrupted :: "string \<times> string \<Rightarrow> cache_file" where
  "corrupted entry =
     \<lparr>f_path = fst entry, f_size = length (snd entry),
      f_stored_at = datetime_min, f_is_expired = True\<rparr>"

text \<open>The body of the scanning loop: the \<^verbatim>\<open>try\<close> block, and \<open>corrupted\<close> for its handler.\<close>

definition scan_entry :: "pylib \<Rightarrow> FileCacheStorage \<Rightarrow> int \<Rightarrow> string \<times> string \<Rightarrow> cache_file" where
  "scan_entry L self now entry =
     (case json_load L (snd entry) of
        None \<Rightarrow> corrupted entry
      | Some metadata \<Rightarrow>
          (case fromisoformat_val L (dict_get metadata ''stored_at'' (PStr [])) of
             None \<Rightarrow> corrupted entry
           | Some stored_at \<Rightarrow>
               (case timedelta_days (max_age_days self) of
                  None \<Rightarrow> corrupted entry
                | Some age \<Rightarrow>
                    \<lparr>f_path = fst entry, f_size = length (snd entry),
                     f_stored_at = stored_at, f_is_expired = (now - stored_at > age)\<rparr>)))"

text \<open>\<^verbatim>\<open>for file in expired_files: try: os.remove(file["path"]) except Exception: pass\<close>\<close>

fun remove_expired :: "string list \<Rightarrow> world \<Rightarrow> world" where
  "remove_expired [] w = w"
| "remove_expired (p # ps) w =
     (case os_remove p w of
        Inl e \<Rightarrow> remove_expired ps w
      | Inr w' \<Rightarrow> remove_expired ps w')"

text \<open>
  The loop over \<^verbatim>\<open>non_expired_files\<close>: the total is read again after each removal that
  succeeded, and the loop is left when it is within the budget.
\<close>

fun remove_oldest :: "int \<Rightarrow> string list \<Rightarrow> world \<Rightarrow> world" where
  "remove_oldest budget [] w = w"
| "remove_oldest budget (p # ps) w =
     (case os_remove p w of
        Inl e \<Rightarrow> remove_oldest budget ps w
      | Inr w' \<Rightarrow>
          if int (get_total_cache_size w') \<le> budget then w'
          else remove_oldest budget ps w')"

definition scan_files :: "pylib \<Rightarrow> FileCacheStorage \<Rightarrow> int \<Rightarrow> world \<Rightarrow> cache_file list" where
  "scan_files L self now w = map (scan_entry L self now) (files w)"

definition expired_files :: "pylib \<Rightarrow> FileCacheStorage \<Rightarrow> int \<Rightarrow> world \<Rightarrow> cache_file list" where
  "expired_files L self now w =
     sort_key f_stored_at (filter f_is_expired (scan_files L self now w))"

definition non_expired_files :: "pylib \<Rightarrow> FileCacheStorage \<Rightarrow> int \<Rightarrow> world \<Rightarrow> cache_file list" where
  "non_expired_files L self now w =
     sort_key f_stored_at (filter (\<lambda>f. \<not> f_is_expired f) (scan_files L self now w))"

text \<open>\<^verbatim>\<open>FileCacheStorage._cleanup_oldest_files\<close>; \<open>now\<close> is the reading of \<^verbatim>\<open>datetime.now()\<close>.\<close>

definition cleanup_oldest_files :: "pylib \<Rightarrow> FileCacheStorage \<Rightarrow> int \<Rightarrow> world \<Rightarrow> world" where
  "cleanup_oldest_files L self now w =
     (let w1 = remove_expired (map f_path (expired_files L self now w)) w
      in if int (get_total_cache_size w1) > max_total_size_bytes self
         then remove_oldest (max_total_size_bytes self)
                (map f_path (non_expired_files L self now w)) w1
         else w1)"

text \<open>
  The \<^verbatim>\<open>try\<close> block of \<^verbatim>\<open>FileCacheStorage.store\<close>: the exception that ends it, if any, and
  the state it leaves.
\<close>

definition store_body ::
  "pylib \<Rightarrow> FileCacheStorage \<Rightarrow> string \<Rightarrow> pydict \<Rightarrow> int \<Rightarrow> world \<Rightarrow> exn option \<times> world" where
  "store_body L self key val now w =
     (let current_size = get_total_cache_size w;
          w1 = (if int current_size + int (str_len L val) > max_total_size_bytes self
                then cleanup_oldest_files L self now w else w);
          cache_path = get_cache_path L self key;
          val' = AList.update ''stored_at'' (PStr (isoformat L now)) val
      in case open_w cache_path w1 of
           Inl e \<Rightarrow> (Some e, w1)
         | Inr w2 \<Rightarrow>
             (case json_dump L val' of
                (text, err) \<Rightarrow> (err, write_all cache_path text w2)))"

text \<open>
  \<^verbatim>\<open>FileCacheStorage.store\<close>: the handler \<^verbatim>\<open>except Exception\<close> logs the exception of the
  body; the first component is the exception that reaches the caller.
\<close>

definition store ::
  "pylib \<Rightarrow> FileCacheStorage \<Rightarrow> string \<Rightarrow> pydict \<Rightarrow> int \<Rightarrow> world \<Rightarrow> exn option \<times> world" where
  "store L self key val now w =
     (case store_body L self key val now w of
        (None, w') \<Rightarrow> (None, w')
      | (Some e, w') \<Rightarrow> (None, w'))"

text \<open>
  \<^verbatim>\<open>FileCacheStorage.retrieve\<close>. Every exception of the body is caught and turned into
  \<^verbatim>\<open>None\<close>, also the one of \<^verbatim>\<open>os.remove\<close>.
\<close>

definition retrieve ::
  "pylib \<Rightarrow> FileCacheStorage \<Rightarrow> string \<Rightarrow> int \<Rightarrow> world \<Rightarrow> pydict option \<times> world" where
  "retrieve L self key now w =
     (let cache_path = get_cache_path L self key
      in case read_file w cache_path of
           None \<Rightarrow> (None, w)
         | Some b \<Rightarrow>
             (case json_load L b of
                None \<Rightarrow> (None, w)
              | Some entry \<Rightarrow>
                  (case fromisoformat_val L (dict_get entry ''stored_at'' (PStr [])) of
                     None \<Rightarrow> (None, w)
                   | Some stored_at \<Rightarrow>
                       (case timedelta_days (max_age_days self) of
                          None \<Rightarrow> (None, w)
                        | Some age \<Rightarrow>
                            if now - stored_at > age
                            then (case os_remove cache_path w of
                                    Inl e \<Rightarrow> (None, w)
                                  | Inr w' \<Rightarrow> (None, w'))
                            else (Some entry, w)))))"

section \<open>TrackUrlCache\<close>

record TrackUrlCache =
  storage :: FileCacheStorage
  download_timeout :: int
  max_retries :: int

text \<open>
  \<^verbatim>\<open>TrackUrlCache.__init__\<close>. The name \<^verbatim>\<open>max_cache_size_bytes\<close> is not a parameter of
  \<^verbatim>\<open>__init__\<close> (those are \<^verbatim>\<open>self\<close>, \<^verbatim>\<open>storage_adapter\<close>, \<^verbatim>\<open>download_timeout\<close> and
  \<^verbatim>\<open>max_retries\<close>), so Python looks it up among the module's global names when the right
  operand of \<^verbatim>\<open>or\<close> is evaluated, that is when \<^verbatim>\<open>storage_adapter\<close> is \<^verbatim>\<open>None\<close>. The
  integers bound at module level are the parameter \<open>globals\<close>.
\<close>

definition TrackUrlCache_init ::
  "(string \<times> int) list \<Rightarrow> FileCacheStorage option \<Rightarrow> int \<Rightarrow> int \<Rightarrow> exn + TrackUrlCache" where
  "TrackUrlCache_init globals storage_adapter timeout retries =
     (case storage_adapter of
        Some adapter \<Rightarrow>
          Inr \<lparr>storage = adapter, download_timeout = timeout, max_retries = retries\<rparr>
      | None \<Rightarrow>
          (case map_of globals ''max_cache_size_bytes'' of
             None \<Rightarrow> Inl (NameError ''max_cache_size_bytes'')
           | Some max_cache_size_bytes \<Rightarrow>
               Inr \<lparr>storage = FileCacheStorage_init ''.cache/tracks'' 30 max_cache_size_bytes,
                    download_timeout = timeout, max_retries = retries\<rparr>))"

text \<open>
  The module-level names of \<^verbatim>\<open>cache.py\<close> are its imports, \<^verbatim>\<open>logger\<close> and the two classes:
  none of them is bound to an integer.
\<close>

definition cache_py_globals :: "(string \<times> int) list" where
  "cache_py_globals = []"

text \<open>The path of the payload file: \<^verbatim>\<open>cache_filename\<close> joined to the cache directory.\<close>

definition track_path :: "pylib \<Rightarrow> TrackUrlCache \<Rightarrow> string \<Rightarrow> string" where
  "track_path L self track_id =
     path_join (cache_dir (storage self)) (md5_hexdigest L track_id @ ''.track'')"

definition track_metadata :: "string \<Rightarrow> string \<Rightarrow> string \<Rightarrow> pydict \<Rightarrow> pydict" where
  "track_metadata track_id cache_path content additional_metadata =
     dict_merge
       [(''track_id'', PStr track_id), (''local_path'', PStr cache_path),
        (''size_bytes'', PInt (int (length content)))]
       additional_metadata"

text \<open>
  The download loop \<^verbatim>\<open>for attempt in range(self.max_retries)\<close>, by the number of
  iterations left. \<open>net url n\<close> is what \<^verbatim>\<open>requests.get(url)\<close> followed by
  \<^verbatim>\<open>raise_for_status()\<close> gives when \<open>n\<close> calls were made before: \<open>Some content\<close>, or
  \<open>None\<close> for a \<^verbatim>\<open>requests.RequestException\<close>. An exception of another class (from
  opening the payload file) leaves the function. When the loop ends without an iteration
  the function returns \<^verbatim>\<open>None\<close> by falling off its end.
\<close>

fun download_loop ::
  "pylib \<Rightarrow> TrackUrlCache \<Rightarrow> (string \<Rightarrow> nat \<Rightarrow> string option) \<Rightarrow> string \<Rightarrow> string \<Rightarrow> pydict \<Rightarrow> int
     \<Rightarrow> nat \<Rightarrow> world \<Rightarrow> (exn + pyval) \<times> world" where
  "download_loop L self net track_id url additional_metadata now 0 w = (Inr PNone, w)"
| "download_loop L self net track_id url additional_metadata now (Suc left) w =
     (let w1 = w\<lparr>net_calls := Suc (net_calls w)\<rparr>
      in case net url (net_calls w) of
           None \<Rightarrow>
             if left = 0 then (Inr PNone, w1)
             else download_loop L self net track_id url additional_metadata now left w1
         | Some content \<Rightarrow>
             (let cache_path = track_path L self track_id
              in case open_w cache_path w1 of
                   Inl e \<Rightarrow> (Inl e, w1)
                 | Inr w2 \<Rightarrow>
                     (let w3 = write_all cache_path content w2;
                          metadata = track_metadata track_id cache_path content additional_metadata
                      in case store L (storage self) track_id metadata now w3 of
                           (Some e, w4) \<Rightarrow> (Inl e, w4)
                         | (None, w4) \<Rightarrow> (Inr (PStr cache_path), w4))))"

text \<open>
  \<^verbatim>\<open>TrackUrlCache._cache_track_url\<close>; \<open>additional_metadata\<close> is \<open>[]\<close> for \<^verbatim>\<open>None\<close>. An
  empty dictionary is false in \<^verbatim>\<open>cached_entry and ...\<close>.
\<close>

definition inner_cache_track_url ::
  "pylib \<Rightarrow> TrackUrlCache \<Rightarrow> (string \<Rightarrow> nat \<Rightarrow> string option) \<Rightarrow> string \<Rightarrow> string \<Rightarrow> pydict \<Rightarrow> int
     \<Rightarrow> world \<Rightarrow> (exn + pyval) \<times> world" where
  "inner_cache_track_url L self net track_id url additional_metadata now w =
     (case retrieve L (storage self) track_id now w of
        (cached_entry, w0) \<Rightarrow>
          (case cached_entry of
             Some entry \<Rightarrow>
               if entry \<noteq> [] \<and> dict_contains ''local_path'' entry
               then (Inr (dict_get entry ''local_path'' PNone), w0)
               else download_loop L self net track_id url additional_metadata now
                      (nat (max_retries self)) w0
           | None \<Rightarrow>
               download_loop L self net track_id url additional_metadata now
                 (nat (max_retries self)) w0))"

text \<open>The thread body \<^verbatim>\<open>cache_retrieval\<close>: what it puts into the queue.\<close>

definition cache_retrieval ::
  "pylib \<Rightarrow> TrackUrlCache \<Rightarrow> (string \<Rightarrow> nat \<Rightarrow> string option) \<Rightarrow> string \<Rightarrow> string \<Rightarrow> pydict \<Rightarrow> int
     \<Rightarrow> world \<Rightarrow> pyval \<times> world" where
  "cache_retrieval L self net track_id url additional_metadata now w =
     (case inner_cache_track_url L self net track_id url additional_metadata now w of
        (Inl e, w') \<Rightarrow> (PNone, w')
      | (Inr cached_track, w') \<Rightarrow> (cached_track, w'))"

text \<open>\<^verbatim>\<open>TrackUrlCache._background_cache_retrieval\<close>: result and exception are only logged.\<close>

definition background_cache_retrieval ::
  "pylib \<Rightarrow> TrackUrlCache \<Rightarrow> (string \<Rightarrow> nat \<Rightarrow> string option) \<Rightarrow> string \<Rightarrow> string \<Rightarrow> pydict \<Rightarrow> int
     \<Rightarrow> world \<Rightarrow> world" where
  "background_cache_retrieval L self net track_id url additional_metadata now w =
     snd (inner_cache_track_url L self net track_id url additional_metadata now w)"

text \<open>
  \<^verbatim>\<open>TrackUrlCache.cache_track_url\<close>. \<open>joined\<close> tells whether the retrieval thread ended
  before \<^verbatim>\<open>join(timeout)\<close> returned, so that the queue holds its result. The state
  returned is the one reached when every thread the call started has ended, the
  background thread running after the retrieval thread (the order in which they are
  started).
\<close>

definition cache_track_url ::
  "pylib \<Rightarrow> TrackUrlCache \<Rightarrow> (string \<Rightarrow> nat \<Rightarrow> string option) \<Rightarrow> bool \<Rightarrow> string \<Rightarrow> string \<Rightarrow> pydict
     \<Rightarrow> int \<Rightarrow> world \<Rightarrow> pyval \<times> world" where
  "cache_track_url L self net joined track_id url additional_metadata now w =
     (case cache_retrieval L self net track_id url additional_metadata now w of
        (cached_track, w1) \<Rightarrow>
          if joined \<and> cached_track \<noteq> PNone then (cached_track, w1)
          else (PNone,
                background_cache_retrieval L self net track_id url additional_metadata now w1))"

section \<open>A concrete library and a concrete cache directory\<close>

text \<open>
  \<^verbatim>\<open>json.dump\<close> on the dictionaries of this model, as CPython's encoder writes them with
  its default separators and \<^verbatim>\<open>ensure_ascii\<close>: chunk by chunk, so that a value it cannot
  serialise raises \<^verbatim>\<open>TypeError\<close> after the chunks before it were written. Characters
  are code points below 256.
\<close>

definition hex_digit :: "nat \<Rightarrow> char" where
  "hex_digit n = ''0123456789abcdef'' ! n"

definition json_escape :: "char \<Rightarrow> string" where
  "json_escape c =
     (if c = CHR 0x22 then [CHR 0x5C, CHR 0x22]
      else if c = CHR 0x5C then [CHR 0x5C, CHR 0x5C]
      else if c = CHR 0x0A then [CHR 0x5C, CHR ''n'']
      else if c = CHR 0x0D then [CHR 0x5C, CHR ''r'']
      else if c = CHR 0x09 then [CHR 0x5C, CHR ''t'']
      else if c = CHR 0x08 then [CHR 0x5C, CHR ''b'']
      else if c = CHR 0x0C then [CHR 0x5C, CHR ''f'']
      else if 32 \<le> (of_char c :: nat) \<and> (of_char c :: nat) \<le> 126 then [c]
      else [CHR 0x5C, CHR ''u'', CHR ''0'', CHR ''0'',
            hex_digit (of_char c div 16), hex_digit (of_char c mod 16)])"

definition json_str :: "string \<Rightarrow> string" where
  "json_str s = [CHR 0x22] @ concat (map json_escape s) @ [CHR 0x22]"

fun decimal :: "nat \<Rightarrow> string" where
  "decimal n =
     (if n < 10 then [''0123456789'' ! n]
      else decimal (n div 10) @ [''0123456789'' ! (n mod 10)])"

definition json_int :: "int \<Rightarrow> string" where
  "json_int i = (if i < 0 then ''-'' @ decimal (nat (- i)) else decimal (nat i))"

definition json_value :: "pyval \<Rightarrow> exn + string" where
  "json_value v =
     (case v of
        PNone \<Rightarrow> Inr ''null''
      | PInt i \<Rightarrow> Inr (json_int i)
      | PStr s \<Rightarrow> Inr (json_str s)
      | PBytes b \<Rightarrow> Inl (TypeError ''Object of type bytes is not JSON serializable''))"

fun iterencode_items :: "bool \<Rightarrow> pydict \<Rightarrow> string \<times> exn option" where
  "iterencode_items first [] = (''}'', None)"
| "iterencode_items first ((k, v) # items) =
     (let chunks = (if first then [] else '', '') @ json_str k @ '': ''
      in case json_value v of
           Inl e \<Rightarrow> (chunks, Some e)
         | Inr t \<Rightarrow>
             (case iterencode_items False items of
                (rest, err) \<Rightarrow> (chunks @ t @ rest, err)))"

definition iterencode_dict :: "pydict \<Rightarrow> string \<times> exn option" where
  "iterencode_dict d =
     (if d = [] then (''{}'', None)
      else case iterencode_items True d of (rest, err) \<Rightarrow> (''{'' @ rest, err))"

text \<open>
  The other library functions, as tables of their values at the arguments that occur
  below (the values are those of CPython): the MD5 digests of four keys, five dates, the
  documents \<^verbatim>\<open>json.load\<close> has to read and the lengths of five \<^verbatim>\<open>str(value)\<close>. A text that
  is not in the table of \<^verbatim>\<open>json.load\<close> counts as unparseable.
\<close>

definition jan1 :: int where "jan1 = 63839664000000000"
definition feb20 :: int where "feb20 = 63843984000000000"
definition feb25 :: int where "feb25 = 63844416000000000"
definition mar1 :: int where "mar1 = 63844848000000000"
definition mar2 :: int where "mar2 = 63844934400000000"

definition demo_md5 :: "string \<Rightarrow> string" where
  "demo_md5 k =
     (if k = ''a'' then ''0cc175b9c0f1b6a831c399e269772661''
      else if k = ''b'' then ''92eb5ffee6ae2fec3ad71c777531578f''
      else if k = ''c'' then ''4a8a08f09d37b73795649038408b5f33''
      else if k = ''k'' then ''8ce4b16b22b58894aa86c421e8759df3''
      else [])"

definition demo_isoformat :: "int \<Rightarrow> string" where
  "demo_isoformat t =
     (if t = jan1 then ''2024-01-01T00:00:00''
      else if t = feb20 then ''2024-02-20T00:00:00''
      else if t = feb25 then ''2024-02-25T00:00:00''
      else if t = mar1 then ''2024-03-01T00:00:00''
      else if t = mar2 then ''2024-03-02T00:00:00''
      else [])"

definition demo_fromisoformat :: "string \<Rightarrow> int option" where
  "demo_fromisoformat s =
     (if s = ''2024-01-01T00:00:00'' then Some jan1
      else if s = ''2024-02-20T00:00:00'' then Some feb20
      else if s = ''2024-02-25T00:00:00'' then Some feb25
      else if s = ''2024-03-01T00:00:00'' then Some mar1
      else if s = ''2024-03-02T00:00:00'' then Some mar2
      else None)"

definition a_cache :: string where "a_cache = ''/c/0cc175b9c0f1b6a831c399e269772661.cache''"
definition b_cache :: string where "b_cache = ''/c/92eb5ffee6ae2fec3ad71c777531578f.cache''"
definition b_track :: string where "b_track = ''/c/92eb5ffee6ae2fec3ad71c777531578f.track''"
definition c_cache :: string where "c_cache = ''/c/4a8a08f09d37b73795649038408b5f33.cache''"
definition k_cache :: string where "k_cache = ''/c/8ce4b16b22b58894aa86c421e8759df3.cache''"
definition k_track :: string where "k_track = ''/c/8ce4b16b22b58894aa86c421e8759df3.track''"

definition a_entry :: pydict where
  "a_entry = [(''stored_at'', PStr ''2024-01-01T00:00:00'')]"

definition b_entry :: pydict where
  "b_entry = [(''local_path'', PStr b_track), (''stored_at'', PStr ''2024-02-25T00:00:00'')]"

definition c_entry :: pydict where
  "c_entry = [(''stored_at'', PStr ''2024-02-20T00:00:00'')]"

definition n_entry :: pydict where
  "n_entry = [(''n'', PInt 1), (''stored_at'', PStr ''2024-03-01T00:00:00'')]"

definition k_entry :: pydict where
  "k_entry = [(''track_id'', PStr ''k''), (''local_path'', PStr k_track),
              (''size_bytes'', PInt 4), (''stored_at'', PStr ''2024-03-01T00:00:00'')]"

definition k_entry_elsewhere :: pydict where
  "k_entry_elsewhere = [(''track_id'', PStr ''k''), (''local_path'', PStr ''/elsewhere''),
              (''size_bytes'', PInt 4), (''stored_at'', PStr ''2024-03-01T00:00:00'')]"

definition a_json :: string where
  "a_json = ''{\"stored_at\": \"2024-01-01T00:00:00\"}''"

definition b_json :: string where
  "b_json = ''{\"local_path\": \"/c/92eb5ffee6ae2fec3ad71c777531578f.track\", \"stored_at\": \"2024-02-25T00:00:00\"}''"

definition c_json :: string where
  "c_json = ''{\"stored_at\": \"2024-02-20T00:00:00\"}''"

definition n_json :: string where
  "n_json = ''{\"n\": 1, \"stored_at\": \"2024-03-01T00:00:00\"}''"

definition k_json :: string where
  "k_json = ''{\"track_id\": \"k\", \"local_path\": \"/c/8ce4b16b22b58894aa86c421e8759df3.track\", \"size_bytes\": 4, \"stored_at\": \"2024-03-01T00:00:00\"}''"

definition k_json_elsewhere :: string where
  "k_json_elsewhere = ''{\"track_id\": \"k\", \"local_path\": \"/elsewhere\", \"size_bytes\": 4, \"stored_at\": \"2024-03-01T00:00:00\"}''"

definition demo_json_load :: "string \<Rightarrow> pydict option" where
  "demo_json_load text =
     map_of [(a_json, a_entry), (b_json, b_entry), (c_json, c_entry), (n_json, n_entry),
             (k_json, k_entry), (k_json_elsewhere, k_entry_elsewhere)] text"

definition demo_str_len :: "pydict \<Rightarrow> nat" where
  "demo_str_len v =
     (if v = [(''blob'', PBytes ''x'')] then 14
      else if v = [(''n'', PInt 1)] then 8
      else if v = [(''track_id'', PStr ''k''), (''local_path'', PStr ''/elsewhere''),
                   (''size_bytes'', PInt 4)] then 62
      else if v = [(''track_id'', PStr ''k''), (''local_path'', PStr k_track),
                   (''size_bytes'', PInt 4)] then 93
      else if v = [(''track_id'', PStr ''k''), (''local_path'', PStr k_track),
                   (''size_bytes'', PInt 4), (''blob'', PBytes ''x'')] then 107
      else 0)"

definition demo_lib :: pylib where
  "demo_lib =
     \<lparr>md5_hexdigest = demo_md5, str_len = demo_str_len, json_dump = iterencode_dict,
      json_load = demo_json_load, isoformat = demo_isoformat,
      fromisoformat = demo_fromisoformat\<rparr>"

text \<open>
  A cache directory \<^verbatim>\<open>/c\<close> with the entries of three keys and one payload file: the entry of
  \<^verbatim>\<open>a\<close> was stored on 2024-01-01, that of \<^verbatim>\<open>c\<close> on 2024-02-20, and that of \<^verbatim>\<open>b\<close> on
  2024-02-25, with its payload beside it. The sizes are 95, 4, 36 and 36 bytes.
\<close>

definition demo_world :: world where
  "demo_world =
     \<lparr>files = [(b_cache, b_json), (b_track, ''RIFF''), (a_cache, a_json), (c_cache, c_json)],
      unwritable = [], undeletable = [], unlinked = [], net_calls = 0\<rparr>"


text \<open>
  Storages on that directory with a maximal age of 30 days and budgets of 1 MB, 100 bytes
  and 176 bytes, and caches with three retries and with none.
\<close>

definition demo_storage :: FileCacheStorage where
  "demo_storage = FileCacheStorage_init ''/c'' 30 (1024 * 1024)"

definition small_storage :: FileCacheStorage where
  "small_storage = FileCacheStorage_init ''/c'' 30 100"

definition mid_storage :: FileCacheStorage where
  "mid_storage = FileCacheStorage_init ''/c'' 30 176"

definition demo_cache :: TrackUrlCache where
  "demo_cache = \<lparr>storage = demo_storage, download_timeout = 30, max_retries = 3\<rparr>"

definition no_retry_cache :: TrackUrlCache where
  "no_retry_cache = \<lparr>storage = demo_storage, download_timeout = 30, max_retries = 0\<rparr>"

text \<open>A transport that fails on every call, and one that always delivers four bytes.\<close>

definition failing_net :: "string \<Rightarrow> nat \<Rightarrow> string option" where
  "failing_net url n = None"

definition serving_net :: "string \<Rightarrow> nat \<Rightarrow> string option" where
  "serving_net url n = Some ''DATA''"

section \<open>Notions for the statements\<close>

text \<open>
  \<open>deletable w p\<close>: \<^verbatim>\<open>os.remove(p)\<close> does not raise for want of permission.
  \<open>without ps w\<close>: the state \<open>w\<close> after \<^verbatim>\<open>os.remove\<close> has removed the paths \<open>ps\<close>, in
  this order. \<open>removed_after L self now w k\<close>: the paths a cleanup pass has removed when
  it has gone through every expired file and through the first \<open>k\<close> live files.
\<close>

definition deletable :: "world \<Rightarrow> string \<Rightarrow> bool" where
  "deletable w p = (p \<notin> set (undeletable w))"

definition without :: "string list \<Rightarrow> world \<Rightarrow> world" where
  "without ps w =
     w\<lparr>files := filter (\<lambda>entry. fst entry \<notin> set ps) (files w), unlinked := unlinked w @ ps\<rparr>"

definition removed_after ::
  "pylib \<Rightarrow> FileCacheStorage \<Rightarrow> int \<Rightarrow> world \<Rightarrow> nat \<Rightarrow> string list" where
  "removed_after L self now w k =
     filter (deletable w)
       (map f_path (expired_files L self now w)
        @ take k (map f_path (non_expired_files L self now w)))"

text \<open>
  \<open>shrunk w w'\<close>: \<open>w'\<close> is \<open>w\<close> with some files removed and no other change to what the
  operations read.
\<close>

definition shrunk :: "world \<Rightarrow> world \<Rightarrow> bool" where
  "shrunk w w' =
     (unwritable w' = unwritable w \<and> undeletable w' = undeletable w
      \<and> net_calls w' = net_calls w
      \<and> (\<forall>q. read_file w' q = read_file w q \<or> read_file w' q = None))"

text \<open>
  \<open>stored_entry L self track_id content additional_metadata now\<close>: the record that
  \<^verbatim>\<open>_cache_track_url\<close> hands to the serialiser after a download of \<open>content\<close> at time
  \<open>now\<close>.
\<close>

definition stored_entry ::
  "pylib \<Rightarrow> TrackUrlCache \<Rightarrow> string \<Rightarrow> string \<Rightarrow> pydict \<Rightarrow> int \<Rightarrow> pydict" where
  "stored_entry L self track_id content additional_metadata now =
     AList.update ''stored_at'' (PStr (isoformat L now))
       (track_metadata track_id (track_path L self track_id) content additional_metadata)"

section \<open>The constructor without a storage adapter\<close>

text \<open>
  C10. Constructing \<^verbatim>\<open>TrackUrlCache\<close> with \<^verbatim>\<open>storage_adapter\<close> omitted or \<^verbatim>\<open>None\<close> raises
  \<^verbatim>\<open>NameError\<close> for the name \<^verbatim>\<open>max_cache_size_bytes\<close>, whatever the other arguments are,
  and constructing it with a storage adapter succeeds.
\<close>

theorem init_without_adapter_raises_NameError:
  "TrackUrlCache_init cache_py_globals None timeout retries
     = Inl (NameError ''max_cache_size_bytes'')
   \<and> TrackUrlCache_init cache_py_globals (Some adapter) timeout retries
     = Inr \<lparr>storage = adapter, download_timeout = timeout, max_retries = retries\<rparr>"
  by (simp add: TrackUrlCache_init_def cache_py_globals_def)

section \<open>Removing files\<close>

lemma os_remove_Inr:
  "os_remove p w = Inr w' \<Longrightarrow>
     w' = w\<lparr>files := AList.delete p (files w), unlinked := unlinked w @ [p]\<rparr>
     \<and> p \<notin> set (undeletable w) \<and> p \<in> fst ` set (files w)"
  by (auto simp: os_remove_def read_file_def map_of_eq_None_iff split: if_splits)

lemma os_remove_Inl:
  "os_remove p w = Inl e \<Longrightarrow> p \<notin> fst ` set (files w) \<or> p \<in> set (undeletable w)"
  by (auto simp: os_remove_def read_file_def map_of_eq_None_iff split: if_splits)

lemma delete_as_filter: "AList.delete p fs = filter (\<lambda>entry. fst entry \<noteq> p) fs"
  by (induction fs) auto

lemma without_Nil: "without [] w = w"
  by (simp add: without_def)

lemma remove_expired_without:
  "distinct ps \<Longrightarrow> set ps \<subseteq> fst ` set (files w) \<Longrightarrow>
     remove_expired ps w = without (filter (deletable w) ps) w"
proof (induction ps arbitrary: w)
  case Nil
  then show ?case by (simp add: without_Nil)
next
  case (Cons p ps)
  show ?case
  proof (cases "os_remove p w")
    case (Inl e)
    with Cons.prems have "\<not> deletable w p"
      by (auto simp: deletable_def dest: os_remove_Inl)
    moreover have "remove_expired ps w = without (filter (deletable w) ps) w"
      using Cons.IH Cons.prems by simp
    ultimately show ?thesis using Inl by simp
  next
    case (Inr w')
    then have w': "w' = w\<lparr>files := AList.delete p (files w), unlinked := unlinked w @ [p]\<rparr>"
      and del: "deletable w p"
      by (auto simp: deletable_def dest: os_remove_Inr)
    have sub: "set ps \<subseteq> fst ` set (files w')"
      using Cons.prems by (force simp: w' delete_as_filter)
    have same: "deletable w' = deletable w"
      by (simp add: w' deletable_def fun_eq_iff)
    have "remove_expired ps w' = without (filter (deletable w') ps) w'"
      using Cons.IH [of w'] Cons.prems sub by simp
    also have "\<dots> = without (filter (deletable w) ps) w'"
      by (simp only: same)
    also have "\<dots> = without (p # filter (deletable w) ps) w"
      by (auto simp: w' without_def delete_as_filter intro!: filter_cong)
    finally show ?thesis using Inr del by simp
  qed
qed

lemma remove_expired_append:
  "remove_expired (xs @ ys) w = remove_expired ys (remove_expired xs w)"
  by (induction xs arbitrary: w) (auto split: sum.splits)

lemma remove_oldest_prefix:
  "budget < int (get_total_cache_size w) \<Longrightarrow>
     \<exists>n\<le>length ps.
        remove_oldest budget ps w = remove_expired (take n ps) w
      \<and> (\<forall>k<n. budget < int (get_total_cache_size (remove_expired (take k ps) w)))
      \<and> (n < length ps \<longrightarrow> int (get_total_cache_size (remove_oldest budget ps w)) \<le> budget)"
proof (induction ps arbitrary: w)
  case Nil
  then show ?case by simp
next
  case (Cons p ps)
  show ?case
  proof (cases "os_remove p w")
    case (Inl e)
    from Cons.IH [OF Cons.prems] obtain n where n: "n \<le> length ps"
      "remove_oldest budget ps w = remove_expired (take n ps) w"
      "\<forall>k<n. budget < int (get_total_cache_size (remove_expired (take k ps) w))"
      "n < length ps \<longrightarrow> int (get_total_cache_size (remove_oldest budget ps w)) \<le> budget"
      by blast
    have "\<forall>k<Suc n. budget < int (get_total_cache_size (remove_expired (take k (p # ps)) w))"
    proof (intro allI impI)
      fix k assume "k < Suc n"
      then show "budget < int (get_total_cache_size (remove_expired (take k (p # ps)) w))"
        using n(3) Cons.prems Inl by (cases k) auto
    qed
    with n Inl show ?thesis
      by (intro exI [of _ "Suc n"]) simp
  next
    case (Inr w')
    show ?thesis
    proof (cases "int (get_total_cache_size w') \<le> budget")
      case True
      have "\<forall>k<Suc 0. budget < int (get_total_cache_size (remove_expired (take k (p # ps)) w))"
        using Cons.prems by simp
      with True Inr show ?thesis
        by (intro exI [of _ "Suc 0"]) simp
    next
      case False
      then have over: "budget < int (get_total_cache_size w')" by simp
      from Cons.IH [OF over] obtain n where n: "n \<le> length ps"
        "remove_oldest budget ps w' = remove_expired (take n ps) w'"
        "\<forall>k<n. budget < int (get_total_cache_size (remove_expired (take k ps) w'))"
        "n < length ps \<longrightarrow> int (get_total_cache_size (remove_oldest budget ps w')) \<le> budget"
        by blast
      have "\<forall>k<Suc n. budget < int (get_total_cache_size (remove_expired (take k (p # ps)) w))"
      proof (intro allI impI)
        fix k assume "k < Suc n"
        then show "budget < int (get_total_cache_size (remove_expired (take k (p # ps)) w))"
          using n(3) Cons.prems Inr by (cases k) auto
      qed
      with n Inr False show ?thesis
        by (intro exI [of _ "Suc n"]) simp
    qed
  qed
qed

lemma f_path_scan_entry: "f_path (scan_entry L self now entry) = fst entry"
  by (simp add: scan_entry_def corrupted_def split: option.splits)

lemma map_f_path_scan: "map f_path (scan_files L self now w) = map fst (files w)"
  by (simp add: scan_files_def f_path_scan_entry)

lemma scan_distinct:
  assumes "distinct (map fst (files w))"
  shows "distinct (scan_files L self now w)" and "inj_on f_path (set (scan_files L self now w))"
  using assms distinct_map [of f_path "scan_files L self now w"]
  by (simp_all add: map_f_path_scan)

lemma sorted_paths_distinct:
  assumes "distinct (map fst (files w))"
  shows "distinct (map f_path (sort_key f_stored_at (filter P (scan_files L self now w))))"
proof -
  have "inj_on f_path (set (filter P (scan_files L self now w)))"
    using scan_distinct(2) [OF assms] by (rule inj_on_subset) auto
  then show ?thesis
    using scan_distinct(1) [OF assms] by (simp add: distinct_map)
qed

lemma sorted_paths_set:
  "set (map f_path (sort_key f_stored_at (filter P (scan_files L self now w))))
     = f_path ` {f \<in> set (scan_files L self now w). P f}"
  by simp

lemma expired_live_paths:
  assumes "distinct (map fst (files w))"
  shows "distinct (map f_path (expired_files L self now w) @ map f_path (non_expired_files L self now w))"
    and "set (map f_path (expired_files L self now w) @ map f_path (non_expired_files L self now w))
           \<subseteq> fst ` set (files w)"
proof -
  let ?S = "scan_files L self now w"
  have inj: "inj_on f_path (set ?S)" by (rule scan_distinct(2) [OF assms])
  have "f_path ` {f \<in> set ?S. f_is_expired f} \<inter> f_path ` {f \<in> set ?S. \<not> f_is_expired f} = {}"
    using inj by (auto simp: inj_on_def)
  then show "distinct (map f_path (expired_files L self now w) @ map f_path (non_expired_files L self now w))"
    unfolding expired_files_def non_expired_files_def
    using sorted_paths_distinct [OF assms] by (simp only: distinct_append sorted_paths_set)
  have "f_path ` set ?S = fst ` set (files w)"
    using map_f_path_scan [of L self now w] by (metis set_map)
  then show "set (map f_path (expired_files L self now w) @ map f_path (non_expired_files L self now w))
           \<subseteq> fst ` set (files w)"
    unfolding expired_files_def non_expired_files_def by auto
qed


lemma pass_state:
  assumes "distinct (map fst (files w))"
  shows "remove_expired (take k (map f_path (non_expired_files L self now w)))
           (remove_expired (map f_path (expired_files L self now w)) w)
         = without (removed_after L self now w k) w"
proof -
  let ?E = "map f_path (expired_files L self now w)"
  let ?V = "map f_path (non_expired_files L self now w)"
  have d: "distinct (?E @ ?V)" and s: "set (?E @ ?V) \<subseteq> fst ` set (files w)"
    using expired_live_paths [OF assms] by blast+
  have sub: "set (take k ?V) \<subseteq> set ?V"
    by (rule set_take_subset)
  from d have dE: "distinct ?E" and dV: "distinct ?V" and dis: "set ?E \<inter> set ?V = {}"
    by (simp_all only: distinct_append)
  have "distinct (take k ?V)"
    using dV by (rule distinct_take)
  moreover have "set ?E \<inter> set (take k ?V) = {}"
    using dis sub by blast
  ultimately have "distinct (?E @ take k ?V)"
    using dE distinct_append [of ?E "take k ?V"] by blast
  moreover have "set (?E @ take k ?V) \<subseteq> fst ` set (files w)"
    using s sub by (simp only: set_append) blast
  ultimately have "remove_expired (?E @ take k ?V) w
      = without (filter (deletable w) (?E @ take k ?V)) w"
    by (rule remove_expired_without)
  then show ?thesis
    by (simp only: remove_expired_append removed_after_def)
qed

section \<open>The cleanup pass\<close>

text \<open>
  C2. One pass of \<^verbatim>\<open>_cleanup_oldest_files\<close> on a directory (its entries have distinct
  paths) removes the files in this order: first every expired file, then live files, oldest
  \<^verbatim>\<open>stored_at\<close> first. Some number \<open>n\<close> of live files is gone through; the total size
  was above \<^verbatim>\<open>max_total_size_bytes\<close> whenever the pass went on to the next live file, and the
  pass leaves live files untouched only if the total is within the budget. A file that
  \<^verbatim>\<open>os.remove\<close> cannot remove is skipped.
\<close>

theorem cleanup_expired_first_then_oldest:
  assumes "distinct (map fst (files w))"
  shows "\<exists>n\<le>length (non_expired_files L self now w).
            cleanup_oldest_files L self now w = without (removed_after L self now w n) w
          \<and> (\<forall>k<n. max_total_size_bytes self
                     < int (get_total_cache_size (without (removed_after L self now w k) w)))
          \<and> (n < length (non_expired_files L self now w) \<longrightarrow>
               int (get_total_cache_size (cleanup_oldest_files L self now w))
                 \<le> max_total_size_bytes self)
          \<and> sorted (map f_stored_at (non_expired_files L self now w))
          \<and> set (expired_files L self now w)
               = {f \<in> set (scan_files L self now w). f_is_expired f}"
proof -
  let ?E = "map f_path (expired_files L self now w)"
  let ?V = "map f_path (non_expired_files L self now w)"
  let ?w1 = "remove_expired ?E w"
  let ?B = "max_total_size_bytes self"
  have st: "\<And>k. remove_expired (take k ?V) ?w1 = without (removed_after L self now w k) w"
    by (rule pass_state [OF assms])
  have srt: "sorted (map f_stored_at (non_expired_files L self now w))"
    by (simp add: non_expired_files_def)
  have ex: "set (expired_files L self now w) = {f \<in> set (scan_files L self now w). f_is_expired f}"
    by (auto simp: expired_files_def)
  show ?thesis
  proof (cases "?B < int (get_total_cache_size ?w1)")
    case False
    then have "cleanup_oldest_files L self now w = ?w1"
      by (simp add: cleanup_oldest_files_def Let_def)
    also have "\<dots> = without (removed_after L self now w 0) w"
      using st [of 0] by simp
    finally have c: "cleanup_oldest_files L self now w = without (removed_after L self now w 0) w" .
    have "int (get_total_cache_size (cleanup_oldest_files L self now w)) \<le> ?B"
      using False st [of 0] c by simp
    with c srt ex show ?thesis
      by (intro exI [of _ 0]) simp
  next
    case True
    then have c: "cleanup_oldest_files L self now w = remove_oldest ?B ?V ?w1"
      by (simp add: cleanup_oldest_files_def Let_def)
    from remove_oldest_prefix [OF True, of ?V] obtain n where n: "n \<le> length ?V"
      "remove_oldest ?B ?V ?w1 = remove_expired (take n ?V) ?w1"
      "\<forall>k<n. ?B < int (get_total_cache_size (remove_expired (take k ?V) ?w1))"
      "n < length ?V \<longrightarrow> int (get_total_cache_size (remove_oldest ?B ?V ?w1)) \<le> ?B"
      by blast
    have "n \<le> length (non_expired_files L self now w)"
      using n(1) by simp
    moreover have "cleanup_oldest_files L self now w = without (removed_after L self now w n) w"
      using c n(2) st by simp
    moreover have "\<forall>k<n. ?B < int (get_total_cache_size (without (removed_after L self now w k) w))"
      using n(3) st by simp
    moreover have "n < length (non_expired_files L self now w) \<longrightarrow>
        int (get_total_cache_size (cleanup_oldest_files L self now w)) \<le> ?B"
      using n(4) c by simp
    ultimately show ?thesis
      using srt ex by blast
  qed
qed

theorem cleanup_expired_first_then_oldest_witness:
  "distinct (map fst (files demo_world))
   \<and> map f_path (expired_files demo_lib small_storage mar1 demo_world) = [b_track, a_cache]
   \<and> map f_path (non_expired_files demo_lib small_storage mar1 demo_world) = [c_cache, b_cache]
   \<and> unlinked (cleanup_oldest_files demo_lib small_storage mar1 demo_world)
       = [b_track, a_cache, c_cache]
   \<and> files (cleanup_oldest_files demo_lib small_storage mar1 demo_world) = [(b_cache, b_json)]
   \<and> get_total_cache_size (cleanup_oldest_files demo_lib small_storage mar1 demo_world) = 95"
proof -
  have d: "distinct (map fst (files demo_world))"
    by code_simp
  have e: "map f_path (expired_files demo_lib small_storage mar1 demo_world) = [b_track, a_cache]"
    by code_simp
  have v: "map f_path (non_expired_files demo_lib small_storage mar1 demo_world) = [c_cache, b_cache]"
    by code_simp
  have c: "cleanup_oldest_files demo_lib small_storage mar1 demo_world
      = demo_world\<lparr>files := [(b_cache, b_json)], unlinked := [b_track, a_cache, c_cache]\<rparr>"
    by code_simp
  have t: "get_total_cache_size (demo_world\<lparr>files := [(b_cache, b_json)], unlinked := [b_track, a_cache, c_cache]\<rparr>) = 95"
    by code_simp
  show ?thesis
    using cleanup_expired_first_then_oldest [OF d, of demo_lib small_storage mar1] d e v c t
    by simp
qed

section \<open>What removals leave unchanged\<close>

lemma shrunk_refl: "shrunk w w"
  by (simp add: shrunk_def)

lemma shrunk_trans: "shrunk w w' \<Longrightarrow> shrunk w' w'' \<Longrightarrow> shrunk w w''"
  unfolding shrunk_def by metis

lemma read_file_os_remove:
  "os_remove p w = Inr w' \<Longrightarrow> read_file w' q = (if q = p then None else read_file w q)"
  by (auto simp: read_file_def delete_conv dest!: os_remove_Inr)

lemma os_remove_shrunk: "os_remove p w = Inr w' \<Longrightarrow> shrunk w w'"
  by (auto simp: shrunk_def read_file_os_remove dest: os_remove_Inr)

lemma remove_expired_shrunk: "shrunk w (remove_expired ps w)"
proof (induction ps arbitrary: w)
  case Nil
  show ?case by (simp add: shrunk_refl)
next
  case (Cons p ps)
  show ?case
  proof (cases "os_remove p w")
    case (Inl e)
    then show ?thesis using Cons.IH by simp
  next
    case (Inr w')
    then show ?thesis
      using shrunk_trans [OF os_remove_shrunk [OF Inr] Cons.IH [of w']] by simp
  qed
qed

lemma remove_oldest_shrunk: "shrunk w (remove_oldest budget ps w)"
proof (induction ps arbitrary: w)
  case Nil
  show ?case by (simp add: shrunk_refl)
next
  case (Cons p ps)
  show ?case
  proof (cases "os_remove p w")
    case (Inl e)
    then show ?thesis using Cons.IH by simp
  next
    case (Inr w')
    then show ?thesis
      using shrunk_trans [OF os_remove_shrunk [OF Inr] Cons.IH [of w']] os_remove_shrunk [OF Inr]
      by simp
  qed
qed

lemma cleanup_shrunk: "shrunk w (cleanup_oldest_files L self now w)"
  unfolding cleanup_oldest_files_def Let_def
  using remove_expired_shrunk remove_oldest_shrunk shrunk_trans by (simp split: if_splits) blast

lemma read_file_write_all: "read_file (write_all p b w) q = (if q = p then Some b else read_file w q)"
  by (simp add: read_file_def write_all_def update_conv')

section \<open>A store that fails\<close>




section \<open>The total size\<close>

lemma total_delete:
  "distinct (map fst fs) \<Longrightarrow> map_of fs p = Some b \<Longrightarrow>
     sum_list (map (\<lambda>entry. length (snd entry)) fs)
       = length b + sum_list (map (\<lambda>entry. length (snd entry)) (AList.delete p fs))"
proof (induction fs)
  case Nil
  then show ?case by simp
next
  case (Cons x fs)
  show ?case
  proof (cases "fst x = p")
    case True
    then have "p \<notin> fst ` set fs" using Cons.prems by auto
    then have "AList.delete p fs = fs"
      by (simp add: delete_id)
    then show ?thesis using True Cons.prems by (cases x) auto
  next
    case False
    then show ?thesis using Cons by (cases x) auto
  qed
qed

lemma total_update:
  "distinct (map fst fs) \<Longrightarrow>
     sum_list (map (\<lambda>entry. length (snd entry)) (AList.update p b fs))
       = length b + sum_list (map (\<lambda>entry. length (snd entry)) (AList.delete p fs))"
  using total_delete [of "AList.update p b fs" p b]
  by (simp add: distinct_update update_conv' delete_update_same)

text \<open>
  C3 as stated fails: \<^verbatim>\<open>_get_total_cache_size\<close> adds up every regular file of the cache
  directory, and \<^verbatim>\<open>_cache_track_url\<close> writes the payload files into that directory. In the
  directory \<open>demo_world\<close> the three metadata records take 167 bytes and the total is 171,
  the payload of \<^verbatim>\<open>b\<close> included; with a budget of 176 bytes a \<^verbatim>\<open>store\<close> of 8 more bytes runs
  the cleanup pass because of these 4 bytes, and does not without them.
\<close>

theorem payload_file_counts_towards_total:
  "dict_get b_entry ''local_path'' PNone = PStr b_track
   \<and> get_total_cache_size demo_world = 171
   \<and> get_total_cache_size
        (demo_world\<lparr>files := [(b_cache, b_json), (a_cache, a_json), (c_cache, c_json)]\<rparr>) = 167
   \<and> unlinked (snd (store demo_lib mid_storage ''k'' [(''n'', PInt 1)] mar1 demo_world))
        = [b_track, a_cache]
   \<and> unlinked (snd (store demo_lib mid_storage ''k'' [(''n'', PInt 1)] mar1
        (demo_world\<lparr>files := [(b_cache, b_json), (a_cache, a_json), (c_cache, c_json)]\<rparr>)))
        = []"
  by code_simp

text \<open>
  C3, amended. The total that \<^verbatim>\<open>store\<close> and the cleanup pass compare with
  \<^verbatim>\<open>max_total_size_bytes\<close> is the sum of the sizes of all regular files of the cache
  directory: every file in it contributes its full size, whatever it holds, and so does the
  payload file that \<^verbatim>\<open>_cache_track_url\<close> has just written.
\<close>

theorem total_counts_payload_files:
  assumes "distinct (map fst (files w))"
  shows "(read_file w p = Some b \<longrightarrow>
            get_total_cache_size w
              = length b + get_total_cache_size (w\<lparr>files := AList.delete p (files w)\<rparr>))
       \<and> get_total_cache_size (write_all (track_path L self track_id) content w)
              = length content
                + get_total_cache_size
                    (w\<lparr>files := AList.delete (track_path L self track_id) (files w)\<rparr>)"
  using assms total_delete [of "files w" p b] total_update [of "files w"]
  by (simp add: get_total_cache_size_def read_file_def write_all_def)

theorem total_counts_payload_files_witness:
  "distinct (map fst (files demo_world))
   \<and> read_file demo_world b_track = Some ''RIFF''
   \<and> get_total_cache_size demo_world = 171
   \<and> get_total_cache_size (demo_world\<lparr>files := AList.delete b_track (files demo_world)\<rparr>) = 167
   \<and> track_path demo_lib demo_cache ''k'' = k_track
   \<and> get_total_cache_size (write_all k_track ''DATA'' demo_world) = 175"
proof -
  have d: "distinct (map fst (files demo_world))"
    by code_simp
  have r: "read_file demo_world b_track = Some ''RIFF''"
    by code_simp
  have t: "get_total_cache_size (demo_world\<lparr>files := AList.delete b_track (files demo_world)\<rparr>) = 167"
    by code_simp
  have k: "track_path demo_lib demo_cache ''k'' = k_track"
    by code_simp
  have u: "get_total_cache_size (demo_world\<lparr>files := AList.delete k_track (files demo_world)\<rparr>) = 171"
    by code_simp
  show ?thesis
    using total_counts_payload_files [OF d, of b_track "''RIFF''" demo_lib demo_cache "''k''" "''DATA''"]
      d r t k u
    by simp
qed

section \<open>Retrieving an expired entry\<close>

lemma retrieve_expired:
  assumes "read_file w (get_cache_path L self key) = Some b"
    and "json_load L b = Some entry"
    and "fromisoformat_val L (dict_get entry ''stored_at'' (PStr [])) = Some stored_at"
    and "timedelta_days (max_age_days self) = Some age"
    and "now - stored_at > age"
  shows "retrieve L self key now w =
           (None, case os_remove (get_cache_path L self key) w of Inl e \<Rightarrow> w | Inr w' \<Rightarrow> w')"
  using assms by (simp add: retrieve_def Let_def split: sum.splits)

lemma retrieve_missing:
  "read_file w (get_cache_path L self key) = None \<Longrightarrow> retrieve L self key now w = (None, w)"
  by (simp add: retrieve_def)

text \<open>
  C7. When the entry stored for a key is older than \<^verbatim>\<open>max_age_days\<close>, \<^verbatim>\<open>retrieve\<close> returns
  \<^verbatim>\<open>None\<close>, and so does every later \<^verbatim>\<open>retrieve\<close> of the key; unless \<^verbatim>\<open>os.remove\<close> raises,
  the metadata file has been removed, so that the file no longer exists.
\<close>

theorem retrieve_expired_deletes:
  assumes "read_file w (get_cache_path L self key) = Some b"
    and "json_load L b = Some entry"
    and "fromisoformat_val L (dict_get entry ''stored_at'' (PStr [])) = Some stored_at"
    and "timedelta_days (max_age_days self) = Some age"
    and "now - stored_at > age"
  shows "fst (retrieve L self key now w) = None
       \<and> (\<forall>later\<ge>now. fst (retrieve L self key later (snd (retrieve L self key now w))) = None)
       \<and> (deletable w (get_cache_path L self key) \<longrightarrow>
            read_file (snd (retrieve L self key now w)) (get_cache_path L self key) = None
          \<and> unlinked (snd (retrieve L self key now w))
              = unlinked w @ [get_cache_path L self key])"
proof -
  let ?p = "get_cache_path L self key"
  note r = retrieve_expired [OF assms]
  show ?thesis
  proof (cases "os_remove ?p w")
    case (Inl e)
    then have nd: "\<not> deletable w ?p"
      using assms(1) by (auto simp: os_remove_def deletable_def split: if_splits)
    have "fst (retrieve L self key later w) = None" if "later \<ge> now" for later
    proof -
      have "later - stored_at > age" using that assms(5) by simp
      from retrieve_expired [OF assms(1-4) this] show ?thesis by simp
    qed
    then show ?thesis using r Inl nd by simp
  next
    case (Inr w')
    then have gone: "read_file w' ?p = None"
      by (simp add: read_file_os_remove)
    have log: "unlinked w' = unlinked w @ [?p]"
      using os_remove_Inr [OF Inr] by simp
    have "fst (retrieve L self key later w') = None" for later
      using retrieve_missing [OF gone] by simp
    then show ?thesis using r Inr gone log by simp
  qed
qed

theorem retrieve_expired_deletes_witness:
  "read_file demo_world (get_cache_path demo_lib demo_storage ''a'') = Some a_json
   \<and> json_load demo_lib a_json = Some a_entry
   \<and> fromisoformat_val demo_lib (dict_get a_entry ''stored_at'' (PStr [])) = Some jan1
   \<and> timedelta_days (max_age_days demo_storage) = Some 2592000000000
   \<and> mar1 - jan1 > 2592000000000
   \<and> deletable demo_world (get_cache_path demo_lib demo_storage ''a'')
   \<and> fst (retrieve demo_lib demo_storage ''a'' mar1 demo_world) = None
   \<and> read_file (snd (retrieve demo_lib demo_storage ''a'' mar1 demo_world))
        (get_cache_path demo_lib demo_storage ''a'') = None
   \<and> fst (retrieve demo_lib demo_storage ''a'' mar2
        (snd (retrieve demo_lib demo_storage ''a'' mar1 demo_world))) = None"
proof -
  have h1: "read_file demo_world (get_cache_path demo_lib demo_storage ''a'') = Some a_json"
    by code_simp
  have h2: "json_load demo_lib a_json = Some a_entry"
    by code_simp
  have h3: "fromisoformat_val demo_lib (dict_get a_entry ''stored_at'' (PStr [])) = Some jan1"
    by code_simp
  have h4: "timedelta_days (max_age_days demo_storage) = Some 2592000000000"
    by code_simp
  have h5: "mar1 - jan1 > 2592000000000"
    by code_simp
  have h6: "deletable demo_world (get_cache_path demo_lib demo_storage ''a'')"
    by code_simp
  have h7: "mar1 \<le> mar2"
    by code_simp
  show ?thesis
    using retrieve_expired_deletes [OF h1 h2 h3 h4 h5] h1 h2 h3 h4 h5 h6 h7
    by simp
qed

section \<open>Payload files in a cleanup pass\<close>

lemma read_file_without: "p \<in> set ps \<Longrightarrow> read_file (without ps w) p = None"
  by (auto simp: read_file_def without_def map_of_eq_None_iff)

lemma shrunk_gone: "shrunk w w' \<Longrightarrow> read_file w p = None \<Longrightarrow> read_file w' p = None"
  unfolding shrunk_def by metis

lemma expired_phase_removes:
  assumes "distinct (map fst (files w))"
    and "p \<in> set (map f_path (expired_files L self now w))"
    and "deletable w p"
  shows "read_file (cleanup_oldest_files L self now w) p = None"
proof -
  let ?E = "map f_path (expired_files L self now w)"
  have "distinct ?E" and "set ?E \<subseteq> fst ` set (files w)"
    using expired_live_paths [OF assms(1), of L self now] by (simp_all only: distinct_append set_append) auto
  then have "remove_expired ?E w = without (filter (deletable w) ?E) w"
    by (rule remove_expired_without)
  moreover have "p \<in> set (filter (deletable w) ?E)"
    using assms(2,3) by simp
  ultimately have gone: "read_file (remove_expired ?E w) p = None"
    by (simp only: read_file_without)
  show ?thesis
    unfolding cleanup_oldest_files_def Let_def
    using gone shrunk_gone [OF remove_oldest_shrunk gone] by simp
qed

text \<open>
  C9. A file of the cache directory whose bytes are not a JSON document with a valid
  \<^verbatim>\<open>stored_at\<close> (a payload file) is classified by every cleanup pass as corrupted, that is
  expired with the minimal \<^verbatim>\<open>stored_at\<close>; it is among the expired files and, unless
  \<^verbatim>\<open>os.remove\<close> raises, it is gone after the pass, whatever the budget is. And there is a
  pass after which a surviving metadata record has a \<^verbatim>\<open>local_path\<close> that named a file before
  the pass and names none after it.
\<close>

theorem cleanup_deletes_payload_files:
  assumes "distinct (map fst (files w))"
    and "read_file w p = Some b"
    and "\<forall>metadata. json_load L b = Some metadata \<longrightarrow>
           fromisoformat_val L (dict_get metadata ''stored_at'' (PStr [])) = None"
  shows "scan_entry L self now (p, b) = corrupted (p, b)
       \<and> f_is_expired (corrupted (p, b))
       \<and> f_stored_at (corrupted (p, b)) = datetime_min
       \<and> p \<in> set (map f_path (expired_files L self now w))
       \<and> (deletable w p \<longrightarrow> read_file (cleanup_oldest_files L self now w) p = None)
       \<and> (\<exists>L' self' now' w' q text entry track.
             read_file (cleanup_oldest_files L' self' now' w') q = Some text
           \<and> json_load L' text = Some entry
           \<and> dict_get entry ''local_path'' PNone = PStr track
           \<and> read_file w' track \<noteq> None
           \<and> read_file (cleanup_oldest_files L' self' now' w') track = None)"
proof -
  have sc: "scan_entry L self now (p, b) = corrupted (p, b)"
    using assms(3) by (simp add: scan_entry_def split: option.splits)
  have ex: "f_is_expired (corrupted (p, b))" and mn: "f_stored_at (corrupted (p, b)) = datetime_min"
    by (simp_all add: corrupted_def)
  have "(p, b) \<in> set (files w)"
    using assms(2) by (simp add: read_file_def map_of_SomeD)
  then have "corrupted (p, b) \<in> set (scan_files L self now w)"
    using sc by (force simp: scan_files_def)
  then have "corrupted (p, b) \<in> set (expired_files L self now w)"
    using ex by (simp add: expired_files_def)
  then have "f_path (corrupted (p, b)) \<in> f_path ` set (expired_files L self now w)"
    by (rule imageI)
  then have inE: "p \<in> set (map f_path (expired_files L self now w))"
    by (simp add: corrupted_def)
  have del: "deletable w p \<longrightarrow> read_file (cleanup_oldest_files L self now w) p = None"
    using expired_phase_removes [OF assms(1) inE] by simp
  have "read_file (cleanup_oldest_files demo_lib small_storage mar1 demo_world) b_cache = Some b_json
      \<and> json_load demo_lib b_json = Some b_entry
      \<and> dict_get b_entry ''local_path'' PNone = PStr b_track
      \<and> read_file demo_world b_track \<noteq> None
      \<and> read_file (cleanup_oldest_files demo_lib small_storage mar1 demo_world) b_track = None"
    by code_simp
  then have dangling: "\<exists>L' self' now' w' q text entry track.
             read_file (cleanup_oldest_files L' self' now' w') q = Some text
           \<and> json_load L' text = Some entry
           \<and> dict_get entry ''local_path'' PNone = PStr track
           \<and> read_file w' track \<noteq> None
           \<and> read_file (cleanup_oldest_files L' self' now' w') track = None"
    by blast
  show ?thesis
    using sc ex mn inE del dangling by blast
qed

theorem cleanup_deletes_payload_files_witness:
  "distinct (map fst (files demo_world))
   \<and> read_file demo_world b_track = Some ''RIFF''
   \<and> json_load demo_lib ''RIFF'' = None
   \<and> deletable demo_world b_track
   \<and> int (get_total_cache_size demo_world) \<le> max_total_size_bytes demo_storage
   \<and> scan_entry demo_lib demo_storage mar1 (b_track, ''RIFF'') = corrupted (b_track, ''RIFF'')
   \<and> read_file (cleanup_oldest_files demo_lib demo_storage mar1 demo_world) b_track = None
   \<and> read_file (cleanup_oldest_files demo_lib demo_storage mar1 demo_world) b_cache = Some b_json
   \<and> dict_get b_entry ''local_path'' PNone = PStr b_track"
proof -
  have h1: "distinct (map fst (files demo_world))"
    by code_simp
  have h2: "read_file demo_world b_track = Some ''RIFF''"
    by code_simp
  have h3: "json_load demo_lib ''RIFF'' = None"
    by code_simp
  then have h3': "\<forall>metadata. json_load demo_lib ''RIFF'' = Some metadata \<longrightarrow>
      fromisoformat_val demo_lib (dict_get metadata ''stored_at'' (PStr [])) = None"
    by simp
  have h4: "deletable demo_world b_track"
    by code_simp
  have h5: "int (get_total_cache_size demo_world) \<le> max_total_size_bytes demo_storage"
    by code_simp
  have h6: "read_file (cleanup_oldest_files demo_lib demo_storage mar1 demo_world) b_cache = Some b_json"
    by code_simp
  have h7: "dict_get b_entry ''local_path'' PNone = PStr b_track"
    by code_simp
  show ?thesis
    using cleanup_deletes_payload_files [OF h1 h2 h3', of demo_storage mar1] h1 h2 h3 h4 h5 h6 h7
    by simp
qed

section \<open>Storing and retrieving\<close>

lemma store_snd: "snd (store L self key val now w) = snd (store_body L self key val now w)"
  by (simp add: store_def split: prod.splits option.splits)

lemma store_fst: "fst (store L self key val now w) = None"
  by (simp add: store_def split: prod.splits option.splits)

lemma store_writes:
  assumes "get_cache_path L self key \<notin> set (unwritable w)"
  shows "read_file (snd (store L self key val now w)) (get_cache_path L self key)
           = Some (fst (json_dump L (AList.update ''stored_at'' (PStr (isoformat L now)) val)))"
proof -
  let ?p = "get_cache_path L self key"
  let ?out = "json_dump L (AList.update ''stored_at'' (PStr (isoformat L now)) val)"
  define w1 where "w1 =
    (if int (get_total_cache_size w) + int (str_len L val) > max_total_size_bytes self
     then cleanup_oldest_files L self now w else w)"
  have "shrunk w w1"
    by (simp add: w1_def cleanup_shrunk shrunk_refl)
  then have "?p \<notin> set (unwritable w1)"
    using assms by (simp add: shrunk_def)
  moreover have "store_body L self key val now w =
      (case open_w ?p w1 of
         Inl e \<Rightarrow> (Some e, w1)
       | Inr w2 \<Rightarrow> (snd ?out, write_all ?p (fst ?out) w2))"
    unfolding store_body_def Let_def w1_def case_prod_beta ..
  ultimately show ?thesis
    by (simp add: store_snd open_w_def read_file_write_all)
qed

lemma retrieve_live:
  assumes "read_file w (get_cache_path L self key) = Some b"
    and "json_load L b = Some entry"
    and "fromisoformat_val L (dict_get entry ''stored_at'' (PStr [])) = Some stored_at"
    and "timedelta_days (max_age_days self) = Some age"
    and "now - stored_at \<le> age"
  shows "retrieve L self key now w = (Some entry, w)"
  using assms by (simp add: retrieve_def Let_def)

lemma stored_at_of_update:
  "dict_get (AList.update ''stored_at'' x v) ''stored_at'' d = x"
  by (simp add: dict_get_def update_conv')

text \<open>
  C4 as stated fails for a payload that \<^verbatim>\<open>json\<close> cannot serialise: \<^verbatim>\<open>store\<close> swallows the
  exception and leaves a truncated file, and the \<^verbatim>\<open>retrieve\<close> that follows returns \<^verbatim>\<open>None\<close>.
  Here the key \<^verbatim>\<open>k\<close> has no entry, the payload is \<^verbatim>\<open>{"blob": b"x"}\<close>, and no time passes
  between the two calls.
\<close>

theorem unserialisable_payload_not_retrieved:
  "read_file demo_world (get_cache_path demo_lib demo_storage ''k'') = None
   \<and> timedelta_days (max_age_days demo_storage) = Some 2592000000000
   \<and> mar1 - mar1 \<le> 2592000000000
   \<and> read_file (snd (store demo_lib demo_storage ''k'' [(''blob'', PBytes ''x'')] mar1 demo_world))
        (get_cache_path demo_lib demo_storage ''k'') = Some ''{\"blob\": ''
   \<and> fst (retrieve demo_lib demo_storage ''k'' mar1
        (snd (store demo_lib demo_storage ''k'' [(''blob'', PBytes ''x'')] mar1 demo_world))) = None"
  by code_simp

text \<open>
  C4, amended. For every key and every payload whose serialisation succeeds and is read
  back by \<^verbatim>\<open>json.load\<close> as it was written, whose file can be opened for writing, and with a
  clock reading that \<^verbatim>\<open>fromisoformat\<close> reads back: \<^verbatim>\<open>store\<close> followed by \<^verbatim>\<open>retrieve\<close>, with
  no more than the maximal age between them, returns an entry that has every field of the
  payload other than \<^verbatim>\<open>stored_at\<close> with its value, and whose \<^verbatim>\<open>stored_at\<close> is the time of the
  \<^verbatim>\<open>store\<close>.
\<close>

theorem store_then_retrieve:
  assumes "json_dump L (AList.update ''stored_at'' (PStr (isoformat L t)) v) = (text, None)"
    and "json_load L text = Some (AList.update ''stored_at'' (PStr (isoformat L t)) v)"
    and "fromisoformat L (isoformat L t) = Some t"
    and "get_cache_path L self key \<notin> set (unwritable w)"
    and "timedelta_days (max_age_days self) = Some age"
    and "t' - t \<le> age"
  shows "\<exists>entry. fst (retrieve L self key t' (snd (store L self key v t w))) = Some entry
       \<and> (\<forall>k x. k \<noteq> ''stored_at'' \<longrightarrow> map_of v k = Some x \<longrightarrow> map_of entry k = Some x)
       \<and> dict_get entry ''stored_at'' PNone = PStr (isoformat L t)
       \<and> fromisoformat_val L (dict_get entry ''stored_at'' (PStr [])) = Some t"
proof -
  let ?entry = "AList.update ''stored_at'' (PStr (isoformat L t)) v"
  let ?w' = "snd (store L self key v t w)"
  have wrote: "read_file ?w' (get_cache_path L self key) = Some text"
    using store_writes [OF assms(4), of "v" t] assms(1) by simp
  have iso: "fromisoformat_val L (dict_get ?entry ''stored_at'' (PStr [])) = Some t"
    using assms(3) by (simp add: stored_at_of_update fromisoformat_val_def)
  have "retrieve L self key t' ?w' = (Some ?entry, ?w')"
    by (rule retrieve_live [OF wrote assms(2) iso assms(5) assms(6)])
  moreover have "\<forall>k x. k \<noteq> ''stored_at'' \<longrightarrow> map_of v k = Some x \<longrightarrow> map_of ?entry k = Some x"
    by (simp add: update_conv')
  moreover have "dict_get ?entry ''stored_at'' PNone = PStr (isoformat L t)"
    by (rule stored_at_of_update)
  ultimately show ?thesis
    using iso by simp
qed

theorem store_then_retrieve_witness:
  "json_dump demo_lib (AList.update ''stored_at'' (PStr (isoformat demo_lib mar1)) [(''n'', PInt 1)])
     = (n_json, None)
   \<and> json_load demo_lib n_json
       = Some (AList.update ''stored_at'' (PStr (isoformat demo_lib mar1)) [(''n'', PInt 1)])
   \<and> fromisoformat demo_lib (isoformat demo_lib mar1) = Some mar1
   \<and> get_cache_path demo_lib demo_storage ''k'' \<notin> set (unwritable demo_world)
   \<and> timedelta_days (max_age_days demo_storage) = Some 2592000000000
   \<and> mar2 - mar1 \<le> 2592000000000
   \<and> fst (retrieve demo_lib demo_storage ''k'' mar2
        (snd (store demo_lib demo_storage ''k'' [(''n'', PInt 1)] mar1 demo_world)))
       = Some [(''n'', PInt 1), (''stored_at'', PStr ''2024-03-01T00:00:00'')]"
proof -
  have h1: "json_dump demo_lib (AList.update ''stored_at'' (PStr (isoformat demo_lib mar1)) [(''n'', PInt 1)])
     = (n_json, None)"
    by code_simp
  have h2: "json_load demo_lib n_json
       = Some (AList.update ''stored_at'' (PStr (isoformat demo_lib mar1)) [(''n'', PInt 1)])"
    by code_simp
  have h3: "fromisoformat demo_lib (isoformat demo_lib mar1) = Some mar1"
    by code_simp
  have h4: "get_cache_path demo_lib demo_storage ''k'' \<notin> set (unwritable demo_world)"
    by code_simp
  have h5: "timedelta_days (max_age_days demo_storage) = Some 2592000000000"
    by code_simp
  have h6: "mar2 - mar1 \<le> 2592000000000"
    by code_simp
  have r: "fst (retrieve demo_lib demo_storage ''k'' mar2
        (snd (store demo_lib demo_storage ''k'' [(''n'', PInt 1)] mar1 demo_world)))
       = Some [(''n'', PInt 1), (''stored_at'', PStr ''2024-03-01T00:00:00'')]"
    by code_simp
  show ?thesis
    using store_then_retrieve [OF h1 h2 h3 h4 h5 h6] h1 h2 h3 h4 h5 h6 r
    by simp
qed

section \<open>A transport that always fails\<close>

lemma retrieve_shrunk: "shrunk w (snd (retrieve L self key now w))"
  by (auto simp: retrieve_def Let_def shrunk_refl os_remove_shrunk
      split: option.splits sum.splits)

lemma retrieve_net_calls_same: "net_calls (snd (retrieve L self key now w)) = net_calls w"
  using retrieve_shrunk [of w L self key now] by (simp add: shrunk_def)

lemma retrieve_Some_state:
  "fst (retrieve L self key now w) = Some entry \<Longrightarrow> snd (retrieve L self key now w) = w"
  by (auto simp: retrieve_def Let_def split: option.splits sum.splits if_splits)

lemma retrieve_idem:
  "fst (retrieve L self key now (snd (retrieve L self key now w)))
     = fst (retrieve L self key now w)"
proof (cases "fst (retrieve L self key now w)")
  case (Some entry)
  then show ?thesis by (simp add: retrieve_Some_state)
next
  case None
  let ?p = "get_cache_path L self key"
  show ?thesis
  proof (cases "snd (retrieve L self key now w) = w")
    case True
    then show ?thesis by simp
  next
    case False
    then obtain w' where "os_remove ?p w = Inr w'" and "snd (retrieve L self key now w) = w'"
      by (auto simp: retrieve_def Let_def split: option.splits sum.splits if_splits)
    then have "read_file (snd (retrieve L self key now w)) ?p = None"
      by (simp add: read_file_os_remove)
    then show ?thesis
      using None by (simp add: retrieve_missing)
  qed
qed

lemma os_remove_net:
  "os_remove p (w\<lparr>net_calls := m\<rparr>)
     = (case os_remove p w of Inl e \<Rightarrow> Inl e | Inr w' \<Rightarrow> Inr (w'\<lparr>net_calls := m\<rparr>))"
  by (simp add: os_remove_def read_file_def)

lemma retrieve_net:
  "retrieve L self key now (w\<lparr>net_calls := m\<rparr>)
     = (fst (retrieve L self key now w), (snd (retrieve L self key now w))\<lparr>net_calls := m\<rparr>)"
  by (simp add: retrieve_def Let_def read_file_def os_remove_net
      split: option.splits sum.splits)

lemma download_loop_failing:
  "\<forall>n. net url n = None \<Longrightarrow>
     download_loop L self net track_id url am now left w
       = (Inr PNone, w\<lparr>net_calls := net_calls w + left\<rparr>)"
  by (induction left arbitrary: w) (simp_all add: Let_def)

lemma inner_miss:
  assumes "\<forall>entry. fst (retrieve L (storage self) track_id now w) = Some entry
             \<longrightarrow> \<not> dict_contains ''local_path'' entry"
  shows "inner_cache_track_url L self net track_id url am now w
           = download_loop L self net track_id url am now (nat (max_retries self))
               (snd (retrieve L (storage self) track_id now w))"
  using assms by (simp add: inner_cache_track_url_def split: prod.splits option.splits)

lemma inner_failing:
  assumes "\<forall>n. net url n = None"
    and "\<forall>entry. fst (retrieve L (storage self) track_id now w) = Some entry
             \<longrightarrow> \<not> dict_contains ''local_path'' entry"
  shows "inner_cache_track_url L self net track_id url am now w
           = (Inr PNone, (snd (retrieve L (storage self) track_id now w))
                \<lparr>net_calls := net_calls w + nat (max_retries self)\<rparr>)"
  using assms(1) by (simp add: inner_miss [OF assms(2)] download_loop_failing retrieve_net_calls_same)

text \<open>
  C5 as stated fails for \<^verbatim>\<open>cache_track_url\<close>: when the retrieval thread has put \<^verbatim>\<open>None\<close> into
  the queue (or has not ended in time), the method starts \<^verbatim>\<open>_background_cache_retrieval\<close>,
  which runs \<^verbatim>\<open>_cache_track_url\<close> once more. With \<^verbatim>\<open>max_retries = 3\<close> and a transport that
  always fails, \<^verbatim>\<open>requests.get\<close> has been called six times when the threads have ended.
\<close>

theorem failing_transport_is_called_twice_max_retries:
  "fst (retrieve demo_lib (storage demo_cache) ''k'' mar1 demo_world) = None
   \<and> max_retries demo_cache = 3
   \<and> net_calls demo_world = 0
   \<and> fst (cache_track_url demo_lib demo_cache failing_net True ''k'' ''http://x/k'' [] mar1
        demo_world) = PNone
   \<and> net_calls (snd (cache_track_url demo_lib demo_cache failing_net True ''k'' ''http://x/k'' []
        mar1 demo_world)) = 6"
  by code_simp

text \<open>
  C5, amended. For every key that has no cached \<^verbatim>\<open>local_path\<close> and a transport that fails
  on every attempt, one run of \<^verbatim>\<open>_cache_track_url\<close> returns \<^verbatim>\<open>None\<close> after exactly
  \<^verbatim>\<open>max_retries\<close> calls of the transport; \<^verbatim>\<open>cache_track_url\<close> returns \<^verbatim>\<open>None\<close>, and the two runs
  it starts (the retrieval thread and the background retrieval) call the transport
  \<^verbatim>\<open>2 * max_retries\<close> times in all.
\<close>

theorem failing_transport_attempts:
  assumes "\<forall>n. net url n = None"
    and "\<forall>entry. fst (retrieve L (storage self) track_id now w) = Some entry
             \<longrightarrow> \<not> dict_contains ''local_path'' entry"
  shows "fst (inner_cache_track_url L self net track_id url am now w) = Inr PNone
       \<and> net_calls (snd (inner_cache_track_url L self net track_id url am now w))
           = net_calls w + nat (max_retries self)
       \<and> fst (cache_track_url L self net joined track_id url am now w) = PNone
       \<and> net_calls (snd (cache_track_url L self net joined track_id url am now w))
           = net_calls w + 2 * nat (max_retries self)"
proof -
  let ?w0 = "snd (retrieve L (storage self) track_id now w)"
  let ?w1 = "?w0\<lparr>net_calls := net_calls w + nat (max_retries self)\<rparr>"
  have first: "inner_cache_track_url L self net track_id url am now w = (Inr PNone, ?w1)"
    using assms by (rule inner_failing)
  have "fst (retrieve L (storage self) track_id now ?w1)
      = fst (retrieve L (storage self) track_id now w)"
    by (simp add: retrieve_net retrieve_idem)
  then have miss: "\<forall>entry. fst (retrieve L (storage self) track_id now ?w1) = Some entry
             \<longrightarrow> \<not> dict_contains ''local_path'' entry"
    using assms(2) by simp
  have second: "net_calls (snd (inner_cache_track_url L self net track_id url am now ?w1))
      = net_calls w + 2 * nat (max_retries self)"
    using assms(1) miss by (simp add: inner_failing)
  show ?thesis
    using first second
    by (simp add: cache_track_url_def cache_retrieval_def background_cache_retrieval_def)
qed

theorem failing_transport_attempts_witness:
  "fst (retrieve demo_lib (storage demo_cache) ''k'' mar1 demo_world) = None
   \<and> max_retries demo_cache = 3
   \<and> net_calls demo_world = 0
   \<and> fst (inner_cache_track_url demo_lib demo_cache failing_net ''k'' ''http://x/k'' [] mar1
        demo_world) = Inr PNone
   \<and> net_calls (snd (inner_cache_track_url demo_lib demo_cache failing_net ''k'' ''http://x/k'' []
        mar1 demo_world)) = 3
   \<and> fst (cache_track_url demo_lib demo_cache failing_net True ''k'' ''http://x/k'' [] mar1
        demo_world) = PNone
   \<and> net_calls (snd (cache_track_url demo_lib demo_cache failing_net True ''k'' ''http://x/k'' []
        mar1 demo_world)) = 6"
proof -
  have h1: "\<forall>n. failing_net ''http://x/k'' n = None"
    by (simp add: failing_net_def)
  have r: "fst (retrieve demo_lib (storage demo_cache) ''k'' mar1 demo_world) = None"
    by code_simp
  then have h2: "\<forall>entry. fst (retrieve demo_lib (storage demo_cache) ''k'' mar1 demo_world) = Some entry
      \<longrightarrow> \<not> dict_contains ''local_path'' entry"
    by simp
  have m: "max_retries demo_cache = 3"
    by code_simp
  have n: "net_calls demo_world = 0"
    by code_simp
  show ?thesis
    using failing_transport_attempts [of failing_net "''http://x/k''" demo_lib demo_cache "''k''"
        mar1 demo_world "[]" True] h1 h2 r m n
    by simp
qed

section \<open>No retries\<close>

lemma inner_no_retries:
  assumes "max_retries self = 0"
  shows "net_calls (snd (inner_cache_track_url L self net track_id url am now w)) = net_calls w"
    and "(\<forall>entry. fst (retrieve L (storage self) track_id now w) = Some entry
             \<longrightarrow> \<not> dict_contains ''local_path'' entry)
         \<Longrightarrow> fst (inner_cache_track_url L self net track_id url am now w) = Inr PNone"
  using assms retrieve_net_calls_same [of L "storage self" track_id now w]
  by (auto simp: inner_cache_track_url_def split: prod.splits option.splits)

text \<open>
  C6 as stated fails for a key that is cached: with \<^verbatim>\<open>max_retries = 0\<close> the call for the key
  \<^verbatim>\<open>b\<close>, whose entry has a \<^verbatim>\<open>local_path\<close>, returns that path and not \<^verbatim>\<open>None\<close>.
\<close>

theorem no_retries_cached_key_is_a_hit:
  "max_retries no_retry_cache = 0
   \<and> fst (cache_track_url demo_lib no_retry_cache failing_net True ''b'' ''http://x/b'' [] mar1
        demo_world) = PStr b_track
   \<and> PStr b_track \<noteq> PNone"
  by code_simp

text \<open>
  C6, amended. When \<^verbatim>\<open>max_retries\<close> is zero, \<^verbatim>\<open>cache_track_url\<close> never calls the transport,
  for every key and URL; and it returns \<^verbatim>\<open>None\<close> for every key that has no cached
  \<^verbatim>\<open>local_path\<close>.
\<close>

theorem no_retries_no_network:
  assumes "max_retries self = 0"
  shows "net_calls (snd (cache_track_url L self net joined track_id url am now w)) = net_calls w
       \<and> ((\<forall>entry. fst (retrieve L (storage self) track_id now w) = Some entry
             \<longrightarrow> \<not> dict_contains ''local_path'' entry)
          \<longrightarrow> fst (cache_track_url L self net joined track_id url am now w) = PNone)"
proof -
  obtain r w1 where first: "inner_cache_track_url L self net track_id url am now w = (r, w1)"
    by (cases "inner_cache_track_url L self net track_id url am now w")
  have n1: "net_calls w1 = net_calls w"
    using inner_no_retries(1) [OF assms, of L net track_id url am now w] first by simp
  have n2: "net_calls (snd (inner_cache_track_url L self net track_id url am now w1)) = net_calls w"
    using inner_no_retries(1) [OF assms, of L net track_id url am now w1] n1 by simp
  have nets: "net_calls (snd (cache_track_url L self net joined track_id url am now w)) = net_calls w"
    using first n1 n2
    by (auto simp: cache_track_url_def cache_retrieval_def background_cache_retrieval_def
        split: sum.splits)
  have "fst (cache_track_url L self net joined track_id url am now w) = PNone"
    if "\<forall>entry. fst (retrieve L (storage self) track_id now w) = Some entry
             \<longrightarrow> \<not> dict_contains ''local_path'' entry"
    using inner_no_retries(2) [OF assms that, of net url am] first
    by (auto simp: cache_track_url_def cache_retrieval_def split: sum.splits)
  with nets show ?thesis by blast
qed

theorem no_retries_no_network_witness:
  "max_retries no_retry_cache = 0
   \<and> fst (retrieve demo_lib (storage no_retry_cache) ''k'' mar1 demo_world) = None
   \<and> fst (cache_track_url demo_lib no_retry_cache serving_net True ''k'' ''http://x/k'' [] mar1
        demo_world) = PNone
   \<and> net_calls (snd (cache_track_url demo_lib no_retry_cache serving_net True ''k'' ''http://x/k'' []
        mar1 demo_world)) = net_calls demo_world"
proof -
  have h: "max_retries no_retry_cache = 0"
    by code_simp
  have r: "fst (retrieve demo_lib (storage no_retry_cache) ''k'' mar1 demo_world) = None"
    by code_simp
  show ?thesis
    using no_retries_no_network [OF h, of demo_lib serving_net True "''k''" "''http://x/k''" "[]"
        mar1 demo_world] h r
    by simp
qed

section \<open>A key that is cached\<close>

lemma dict_contains_iff: "dict_contains k d \<longleftrightarrow> k \<in> fst ` set d"
  by (simp add: dict_contains_def map_of_eq_None_iff)

lemma map_of_dict_merge:
  "k \<notin> fst ` set b \<Longrightarrow> map_of (dict_merge a b) k = map_of a k"
  unfolding dict_merge_def
  by (induction b arbitrary: a) (auto simp: update_conv')

lemma stored_entry_local_path:
  assumes "\<not> dict_contains ''local_path'' am"
  shows "dict_contains ''local_path'' (stored_entry L self track_id content am now)"
    and "dict_get (stored_entry L self track_id content am now) ''local_path'' PNone
           = PStr (track_path L self track_id)"
  using assms
  by (simp_all add: stored_entry_def track_metadata_def dict_contains_def dict_get_def
      update_conv' map_of_dict_merge map_of_eq_None_iff)

lemma hit_short_circuits:
  assumes "fst (retrieve L (storage self) track_id now w) = Some entry"
    and "dict_contains ''local_path'' entry"
  shows "inner_cache_track_url L self net track_id url am now w
           = (Inr (dict_get entry ''local_path'' PNone), w)"
proof -
  have "entry \<noteq> []"
    using assms(2) by (auto simp: dict_contains_def)
  moreover have "retrieve L (storage self) track_id now w = (Some entry, w)"
    using assms(1) retrieve_Some_state [OF assms(1)] by (simp add: prod_eq_iff)
  ultimately show ?thesis
    using assms(2) by (simp add: inner_cache_track_url_def)
qed

lemma hit_cache_track_url:
  assumes "fst (retrieve L (storage self) track_id now w) = Some entry"
    and "dict_contains ''local_path'' entry"
  shows "snd (cache_track_url L self net joined track_id url am now w) = w"
    and "joined \<Longrightarrow> fst (cache_track_url L self net joined track_id url am now w)
           = dict_get entry ''local_path'' PNone"
  using hit_short_circuits [OF assms]
  by (auto simp: cache_track_url_def cache_retrieval_def background_cache_retrieval_def)

lemma download_succeeds:
  assumes "net url (net_calls w) = Some content"
    and "track_path L self track_id \<notin> set (unwritable w)"
  shows "download_loop L self net track_id url am now (Suc left) w
           = (Inr (PStr (track_path L self track_id)),
              snd (store L (storage self) track_id
                    (track_metadata track_id (track_path L self track_id) content am) now
                    (write_all (track_path L self track_id) content
                       (w\<lparr>net_calls := Suc (net_calls w),
                          files := AList.update (track_path L self track_id) [] (files w)\<rparr>))))"
  using assms store_fst [of L "storage self" track_id]
  by (simp add: Let_def open_w_def split: prod.splits option.splits) (metis fst_conv option.distinct(1))


lemma fresh_fetch:
  assumes miss: "\<forall>e. fst (retrieve L (storage self) track_id now w) = Some e
                  \<longrightarrow> \<not> dict_contains ''local_path'' e"
    and retries: "0 < max_retries self"
    and served: "net url (net_calls w) = Some content"
    and wr_track: "track_path L self track_id \<notin> set (unwritable w)"
    and wr_cache: "get_cache_path L (storage self) track_id \<notin> set (unwritable w)"
  shows "fst (cache_track_url L self net True track_id url am now w)
           = PStr (track_path L self track_id)"
    and "read_file (snd (cache_track_url L self net True track_id url am now w))
           (get_cache_path L (storage self) track_id)
           = Some (fst (json_dump L (stored_entry L self track_id content am now)))"
proof -
  let ?tp = "track_path L self track_id"
  let ?w0 = "snd (retrieve L (storage self) track_id now w)"
  let ?w3 = "write_all ?tp content
               (?w0\<lparr>net_calls := Suc (net_calls ?w0), files := AList.update ?tp [] (files ?w0)\<rparr>)"
  let ?md = "track_metadata track_id ?tp content am"
  have sh: "shrunk w ?w0"
    by (rule retrieve_shrunk)
  obtain m where m: "nat (max_retries self) = Suc m"
    using retries by (cases "nat (max_retries self)") auto
  have served0: "net url (net_calls ?w0) = Some content"
    using served sh by (simp add: shrunk_def)
  have wr0: "?tp \<notin> set (unwritable ?w0)"
    using wr_track sh by (simp add: shrunk_def)
  have inner: "inner_cache_track_url L self net track_id url am now w
      = (Inr (PStr ?tp), snd (store L (storage self) track_id ?md now ?w3))"
    using download_succeeds [where net = net and url = url and am = am and now = now and left = m,
        OF served0 wr0]
    by (simp only: inner_miss [OF miss] m)
  then have call: "cache_track_url L self net True track_id url am now w
      = (PStr ?tp, snd (store L (storage self) track_id ?md now ?w3))"
    by (simp add: cache_track_url_def cache_retrieval_def)
  show "fst (cache_track_url L self net True track_id url am now w) = PStr ?tp"
    using call by simp
  have "get_cache_path L (storage self) track_id \<notin> set (unwritable ?w3)"
    using wr_cache sh by (simp add: shrunk_def write_all_def)
  from store_writes [OF this, of ?md now]
  show "read_file (snd (cache_track_url L self net True track_id url am now w))
           (get_cache_path L (storage self) track_id)
           = Some (fst (json_dump L (stored_entry L self track_id content am now)))"
    using call by (simp add: stored_entry_def)
qed

text \<open>
  C8 as stated fails in its second half. The metadata record is built as
  \<^verbatim>\<open>{"track_id": ..., "local_path": cache_path, ..., **additional_metadata}\<close>, so a
  \<^verbatim>\<open>local_path\<close> in the additional metadata replaces the path of the payload: the first call
  returns \<^verbatim>\<open>cache_path\<close> and the second call returns the stored \<^verbatim>\<open>/elsewhere\<close>. And when the
  additional metadata cannot be serialised, the first call returns the path although no
  record is stored, and the second call downloads again.
\<close>

theorem second_call_differs_from_first:
  "fst (cache_track_url demo_lib demo_cache serving_net True ''k'' ''http://x/k''
          [(''local_path'', PStr ''/elsewhere'')] mar1 demo_world) = PStr k_track
   \<and> fst (cache_track_url demo_lib demo_cache serving_net True ''k'' ''http://x/k''
          [(''local_path'', PStr ''/elsewhere'')] mar2
          (snd (cache_track_url demo_lib demo_cache serving_net True ''k'' ''http://x/k''
             [(''local_path'', PStr ''/elsewhere'')] mar1 demo_world))) = PStr ''/elsewhere''
   \<and> fst (cache_track_url demo_lib demo_cache serving_net True ''k'' ''http://x/k''
          [(''blob'', PBytes ''x'')] mar1 demo_world) = PStr k_track
   \<and> net_calls (snd (cache_track_url demo_lib demo_cache serving_net True ''k'' ''http://x/k''
          [(''blob'', PBytes ''x'')] mar1 demo_world)) = 1
   \<and> net_calls (snd (cache_track_url demo_lib demo_cache serving_net True ''k'' ''http://x/k''
          [(''blob'', PBytes ''x'')] mar2
          (snd (cache_track_url demo_lib demo_cache serving_net True ''k'' ''http://x/k''
             [(''blob'', PBytes ''x'')] mar1 demo_world)))) = 2"
  by code_simp

text \<open>
  C8, amended. For every key whose retrievable entry contains a \<^verbatim>\<open>local_path\<close> field,
  \<^verbatim>\<open>_cache_track_url\<close> returns the stored value without a call of the transport, and
  \<^verbatim>\<open>cache_track_url\<close> makes no call of the transport and returns the stored value when the
  retrieval thread ends within the wait. In particular, after a call that found no cached
  path, downloaded the content at the first attempt and stored a record that serialises and
  reads back, with additional metadata that has no \<^verbatim>\<open>local_path\<close> of its own, a second call
  for the key within the maximal age returns the same path as the first, without a call of
  the transport.
\<close>

theorem cached_path_short_circuits:
  "(fst (retrieve L (storage self) track_id now w) = Some entry
      \<and> dict_contains ''local_path'' entry \<longrightarrow>
        fst (inner_cache_track_url L self net track_id url am now w)
          = Inr (dict_get entry ''local_path'' PNone)
      \<and> net_calls (snd (cache_track_url L self net joined track_id url am now w)) = net_calls w
      \<and> (joined \<longrightarrow> fst (cache_track_url L self net joined track_id url am now w)
                        = dict_get entry ''local_path'' PNone))
   \<and> ((\<forall>e. fst (retrieve L (storage self) track_id now w) = Some e
             \<longrightarrow> \<not> dict_contains ''local_path'' e)
      \<and> 0 < max_retries self
      \<and> net url (net_calls w) = Some content
      \<and> track_path L self track_id \<notin> set (unwritable w)
      \<and> get_cache_path L (storage self) track_id \<notin> set (unwritable w)
      \<and> json_dump L (stored_entry L self track_id content am now) = (doc, None)
      \<and> json_load L doc = Some (stored_entry L self track_id content am now)
      \<and> fromisoformat L (isoformat L now) = Some now
      \<and> timedelta_days (max_age_days (storage self)) = Some age
      \<and> later - now \<le> age
      \<and> \<not> dict_contains ''local_path'' am \<longrightarrow>
        fst (cache_track_url L self net True track_id url am now w)
          = PStr (track_path L self track_id)
      \<and> fst (cache_track_url L self net' True track_id url' am' later
               (snd (cache_track_url L self net True track_id url am now w)))
          = PStr (track_path L self track_id)
      \<and> net_calls (snd (cache_track_url L self net' True track_id url' am' later
               (snd (cache_track_url L self net True track_id url am now w))))
          = net_calls (snd (cache_track_url L self net True track_id url am now w)))"
proof (intro conjI impI)
  assume hit: "fst (retrieve L (storage self) track_id now w) = Some entry
      \<and> dict_contains ''local_path'' entry"
  then have h1: "fst (retrieve L (storage self) track_id now w) = Some entry"
    and h2: "dict_contains ''local_path'' entry"
    by simp_all
  show "fst (inner_cache_track_url L self net track_id url am now w)
          = Inr (dict_get entry ''local_path'' PNone)"
    by (simp add: hit_short_circuits [OF h1 h2])
  show "net_calls (snd (cache_track_url L self net joined track_id url am now w)) = net_calls w"
    by (simp add: hit_cache_track_url(1) [OF h1 h2])
  show "fst (cache_track_url L self net joined track_id url am now w)
          = dict_get entry ''local_path'' PNone" if joined
    using that by (rule hit_cache_track_url(2) [OF h1 h2])
next
  assume H: "(\<forall>e. fst (retrieve L (storage self) track_id now w) = Some e
             \<longrightarrow> \<not> dict_contains ''local_path'' e)
      \<and> 0 < max_retries self
      \<and> net url (net_calls w) = Some content
      \<and> track_path L self track_id \<notin> set (unwritable w)
      \<and> get_cache_path L (storage self) track_id \<notin> set (unwritable w)
      \<and> json_dump L (stored_entry L self track_id content am now) = (doc, None)
      \<and> json_load L doc = Some (stored_entry L self track_id content am now)
      \<and> fromisoformat L (isoformat L now) = Some now
      \<and> timedelta_days (max_age_days (storage self)) = Some age
      \<and> later - now \<le> age
      \<and> \<not> dict_contains ''local_path'' am"
  let ?w1 = "snd (cache_track_url L self net True track_id url am now w)"
  let ?entry = "stored_entry L self track_id content am now"
  from H have miss: "\<forall>e. fst (retrieve L (storage self) track_id now w) = Some e
             \<longrightarrow> \<not> dict_contains ''local_path'' e"
    and retries: "0 < max_retries self"
    and served: "net url (net_calls w) = Some content"
    and wr_track: "track_path L self track_id \<notin> set (unwritable w)"
    and wr_cache: "get_cache_path L (storage self) track_id \<notin> set (unwritable w)"
    and dump: "json_dump L ?entry = (doc, None)"
    and load: "json_load L doc = Some ?entry"
    and iso: "fromisoformat L (isoformat L now) = Some now"
    and age: "timedelta_days (max_age_days (storage self)) = Some age"
    and live: "later - now \<le> age"
    and own: "\<not> dict_contains ''local_path'' am"
    by blast+
  note ff = fresh_fetch [where net = net and url = url and am = am and now = now,
      OF miss retries served wr_track wr_cache]
  show first: "fst (cache_track_url L self net True track_id url am now w)
      = PStr (track_path L self track_id)"
    by (rule ff(1))
  have wrote: "read_file ?w1 (get_cache_path L (storage self) track_id) = Some doc"
    using ff(2) dump by simp
  have at: "fromisoformat_val L (dict_get ?entry ''stored_at'' (PStr [])) = Some now"
    using iso by (simp add: stored_entry_def stored_at_of_update fromisoformat_val_def)
  have "retrieve L (storage self) track_id later ?w1 = (Some ?entry, ?w1)"
    by (rule retrieve_live [OF wrote load at age live])
  then have h1: "fst (retrieve L (storage self) track_id later ?w1) = Some ?entry"
    by simp
  note lp = stored_entry_local_path [OF own, of L self track_id content now]
  show "fst (cache_track_url L self net' True track_id url' am' later ?w1)
      = PStr (track_path L self track_id)"
    using hit_cache_track_url(2) [OF h1 lp(1), of True net' url' am'] lp(2) by simp
  show "net_calls (snd (cache_track_url L self net' True track_id url' am' later ?w1))
      = net_calls ?w1"
    by (simp add: hit_cache_track_url(1) [OF h1 lp(1)])
qed


theorem cached_path_short_circuits_witness:
  "fst (retrieve demo_lib (storage demo_cache) ''b'' mar1 demo_world) = Some b_entry
   \<and> dict_contains ''local_path'' b_entry
   \<and> fst (cache_track_url demo_lib demo_cache failing_net True ''b'' ''http://x/b'' [] mar1
        demo_world) = PStr b_track
   \<and> net_calls (snd (cache_track_url demo_lib demo_cache failing_net True ''b'' ''http://x/b'' []
        mar1 demo_world)) = net_calls demo_world
   \<and> fst (retrieve demo_lib (storage demo_cache) ''k'' mar1 demo_world) = None
   \<and> 0 < max_retries demo_cache
   \<and> serving_net ''http://x/k'' (net_calls demo_world) = Some ''DATA''
   \<and> track_path demo_lib demo_cache ''k'' \<notin> set (unwritable demo_world)
   \<and> get_cache_path demo_lib (storage demo_cache) ''k'' \<notin> set (unwritable demo_world)
   \<and> json_dump demo_lib (stored_entry demo_lib demo_cache ''k'' ''DATA'' [] mar1) = (k_json, None)
   \<and> json_load demo_lib k_json = Some (stored_entry demo_lib demo_cache ''k'' ''DATA'' [] mar1)
   \<and> fromisoformat demo_lib (isoformat demo_lib mar1) = Some mar1
   \<and> timedelta_days (max_age_days (storage demo_cache)) = Some 2592000000000
   \<and> mar2 - mar1 \<le> 2592000000000
   \<and> \<not> dict_contains ''local_path'' []
   \<and> track_path demo_lib demo_cache ''k'' = k_track
   \<and> fst (cache_track_url demo_lib demo_cache serving_net True ''k'' ''http://x/k'' [] mar1
        demo_world) = PStr k_track
   \<and> fst (cache_track_url demo_lib demo_cache failing_net True ''k'' ''http://x/k'' [] mar2
        (snd (cache_track_url demo_lib demo_cache serving_net True ''k'' ''http://x/k'' [] mar1
           demo_world))) = PStr k_track
   \<and> net_calls (snd (cache_track_url demo_lib demo_cache failing_net True ''k'' ''http://x/k'' []
        mar2 (snd (cache_track_url demo_lib demo_cache serving_net True ''k'' ''http://x/k'' []
           mar1 demo_world))))
       = net_calls (snd (cache_track_url demo_lib demo_cache serving_net True ''k'' ''http://x/k''
           [] mar1 demo_world))"
proof -
  have b1: "fst (retrieve demo_lib (storage demo_cache) ''b'' mar1 demo_world) = Some b_entry"
    by code_simp
  have b2: "dict_contains ''local_path'' b_entry"
    by code_simp
  have b3: "dict_get b_entry ''local_path'' PNone = PStr b_track"
    by code_simp
  have k1: "fst (retrieve demo_lib (storage demo_cache) ''k'' mar1 demo_world) = None"
    by code_simp
  have k2: "0 < max_retries demo_cache"
    by code_simp
  have k3: "serving_net ''http://x/k'' (net_calls demo_world) = Some ''DATA''"
    by code_simp
  have k4: "track_path demo_lib demo_cache ''k'' \<notin> set (unwritable demo_world)"
    by code_simp
  have k5: "get_cache_path demo_lib (storage demo_cache) ''k'' \<notin> set (unwritable demo_world)"
    by code_simp
  have k6: "json_dump demo_lib (stored_entry demo_lib demo_cache ''k'' ''DATA'' [] mar1)
      = (k_json, None)"
    by code_simp
  have k7: "json_load demo_lib k_json = Some (stored_entry demo_lib demo_cache ''k'' ''DATA'' [] mar1)"
    by code_simp
  have k8: "fromisoformat demo_lib (isoformat demo_lib mar1) = Some mar1"
    by code_simp
  have k9: "timedelta_days (max_age_days (storage demo_cache)) = Some 2592000000000"
    by code_simp
  have k10: "mar2 - mar1 \<le> 2592000000000"
    by code_simp
  have k11: "\<not> dict_contains ''local_path'' []"
    by code_simp
  have k12: "track_path demo_lib demo_cache ''k'' = k_track"
    by code_simp
  show ?thesis
    using cached_path_short_circuits [where L = demo_lib and self = demo_cache
        and track_id = "''b''" and now = mar1 and w = demo_world and entry = b_entry
        and net = failing_net and url = "''http://x/b''" and am = "[]" and joined = True]
      cached_path_short_circuits [where L = demo_lib and self = demo_cache
        and track_id = "''k''" and now = mar1 and w = demo_world
        and net = serving_net and url = "''http://x/k''" and am = "[]" and content = "''DATA''"
        and doc = k_json and age = 2592000000000 and later = mar2
        and net' = failing_net and url' = "''http://x/k''" and am' = "[]"]
      b1 b2 b3 k1 k2 k3 k4 k5 k6 k7 k8 k9 k10 k11 k12
    by simp
qed

end
